theory Spec2Isabelle
  imports Complex_Main "HOL-Library.Word" "HOL-Library.Sublist"
begin

section \<open>Frame synchronisation and decoding (\<open>SerialThread\<close>)\<close>

text \<open>
  The receive thread of \<open>serial_scope.py\<close> keeps a \<open>bytearray\<close> buffer, appends
  every chunk read from the serial port and then runs the resynchronisation loop of
  \<open>SerialThread.run\<close>. Bytes are \<open>8 word\<close>. Python's \<open>float\<close> arithmetic (the division
  by \<open>125.0\<close> and the four divisions of the decoder) is modelled by exact arithmetic on
  \<open>real\<close>; rounding to a double is not part of the model.
\<close>

type_synonym byte = "8 word"

text \<open>\<open>processed_data\<close>: the list literal of four quotients.\<close>
type_synonym sample = "real \<times> real \<times> real \<times> real"

text \<open>\<open>current_coeffs = [nf, nf, na, na]\<close>.\<close>
type_synonym coeffs = "real \<times> real \<times> real \<times> real"

text \<open>The arguments of \<open>data_received_signal.emit(processed_data, bytes(frame))\<close>.\<close>
type_synonym event = "sample \<times> byte list"

definition FRAME_LEN :: nat where
  "FRAME_LEN = 40"

text \<open>Python's \<open>2 ** e\<close> for an integer \<open>e\<close>: an integer power, a float below zero.\<close>
definition pow2 :: "int \<Rightarrow> real" where
  "pow2 e = (if 0 \<le> e then 2 ^ nat e else 1 / 2 ^ nat (- e))"

definition calculate_coeffs :: "int \<Rightarrow> real \<times> real" where
  "calculate_coeffs g =
     (let nf = (21 * pow2 (6 * g + 51)) / 125;
          na = pow2 (24 + 6 * g)
      in (nf, na))"

definition coeffs_of :: "int \<Rightarrow> coeffs" where
  "coeffs_of g = (case calculate_coeffs g of (nf, na) \<Rightarrow> (nf, nf, na, na))"

text \<open>\<open>xs[a:b]\<close> for \<open>0 \<le> a\<close>, \<open>0 \<le> b\<close>: Python clips the slice to the sequence.\<close>
definition py_slice :: "nat \<Rightarrow> nat \<Rightarrow> 'a list \<Rightarrow> 'a list" where
  "py_slice a b xs = take (b - a) (drop a xs)"

text \<open>\<open>int.from_bytes(bs, byteorder='big', signed=False)\<close>.\<close>
definition from_bytes_big :: "byte list \<Rightarrow> nat" where
  "from_bytes_big bs = foldl (\<lambda>acc b. acc * 256 + unat b) 0 bs"

text \<open>
  Lines 84 to 93, the body of the inner \<open>try\<close>. The only exception the body can raise is
  \<open>ZeroDivisionError\<close>; it is caught by the \<open>except\<close> of line 95 and the frame is
  not emitted: \<open>None\<close>.
\<close>
definition decode :: "coeffs \<Rightarrow> byte list \<Rightarrow> sample option" where
  "decode cs frame =
     (case cs of (c0, c1, c2, c3) \<Rightarrow>
        let val1 = from_bytes_big (py_slice 3 14 frame);
            val2 = from_bytes_big (py_slice 14 25 frame);
            val3 = from_bytes_big (py_slice 25 32 frame);
            val4 = from_bytes_big (py_slice 32 39 frame)
        in if c0 = 0 \<or> c1 = 0 \<or> c2 = 0 \<or> c3 = 0 then None
           else Some (real val1 / c0, real val2 / c1, real val3 / c2, real val4 / c3))"

text \<open>
  One iteration of the inner \<open>while\<close> (lines 81 to 99), run when the buffer holds at
  least \<open>FRAME_LEN\<close> bytes: the events emitted and the buffer left.
\<close>
definition loop_body :: "coeffs \<Rightarrow> byte list \<Rightarrow> event list \<times> byte list" where
  "loop_body cs buf =
     (if buf ! 0 = 0xAA then
        (let frame = py_slice 0 FRAME_LEN buf
         in ((case decode cs frame of Some pd \<Rightarrow> [(pd, frame)] | None \<Rightarrow> []),
             drop FRAME_LEN buf))
      else ([], drop 1 buf))"

text \<open>The inner \<open>while len(self.buffer) >= FRAME_LEN\<close> loop (lines 80 to 99).\<close>
function sync_loop :: "coeffs \<Rightarrow> byte list \<Rightarrow> event list \<times> byte list" where
  "sync_loop cs buf =
     (if FRAME_LEN \<le> length buf then
        (case loop_body cs buf of (emitted, buf') \<Rightarrow>
           (case sync_loop cs buf' of (evs, rest) \<Rightarrow> (emitted @ evs, rest)))
      else ([], buf))"
  by pat_completeness auto
termination
  by (relation "measure (\<lambda>(cs, buf). length buf)")
     (auto simp: loop_body_def FRAME_LEN_def Let_def split: if_splits)

declare sync_loop.simps [simp del]

text \<open>
  One pass of the outer loop with \<open>raw\<close> the bytes waiting on the port (lines 77 to
  101): nothing waiting is the \<open>sleep\<close> branch, which leaves the buffer alone.
\<close>
definition run_iter :: "coeffs \<Rightarrow> byte list \<Rightarrow> byte list \<Rightarrow> event list \<times> byte list" where
  "run_iter cs buf raw = (if raw = [] then ([], buf) else sync_loop cs (buf @ raw))"

text \<open>The outer loop over a sequence of reads, collecting the emitted events in order.\<close>
fun run_chunks :: "coeffs \<Rightarrow> byte list \<Rightarrow> byte list list \<Rightarrow> event list \<times> byte list" where
  "run_chunks cs buf [] = ([], buf)"
| "run_chunks cs buf (raw # raws) =
     (case run_iter cs buf raw of (evs, buf') \<Rightarrow>
        (case run_chunks cs buf' raws of (evs', buf'') \<Rightarrow> (evs @ evs', buf'')))"

text \<open>The loop is iterated on an explicit state: events emitted so far and the buffer.\<close>
definition loop_step :: "coeffs \<Rightarrow> event list \<times> byte list \<Rightarrow> event list \<times> byte list" where
  "loop_step cs st =
     (case st of (acc, buf) \<Rightarrow>
        (case loop_body cs buf of (emitted, buf') \<Rightarrow> (acc @ emitted, buf')))"

section \<open>The receive thread's state and the serial port\<close>

text \<open>
  What \<open>print\<close> writes to the console and the message boxes the window opens are kept
  as lists of tags; their texts are not modelled.
\<close>
datatype msg =
    Sent_msg "byte list"
  | Send_failed_msg
  | Coeffs_updated_msg int
  | Write_file_failed_msg

datatype dialog = Warning_open_port_first | Critical_send_error

datatype error = ValueError

text \<open>
  The fields of \<open>SerialThread\<close> that sending and decoding use. \<open>port_written\<close> is what
  \<open>serial_port.write\<close> has accepted, in order; \<open>port_write_raises\<close> says whether the
  device makes \<open>write\<close> raise.
\<close>
record serial_thread =
  is_running :: bool
  port_is_open :: bool
  port_write_raises :: bool
  port_written :: "byte list list"
  current_coeffs :: coeffs

definition send_data :: "byte list \<Rightarrow> serial_thread \<Rightarrow> serial_thread \<times> msg list" where
  "send_data data_bytes th =
     (if port_is_open th then
        (if port_write_raises th then (th, [Send_failed_msg])
         else (th\<lparr>port_written := port_written th @ [data_bytes]\<rparr>, [Sent_msg data_bytes]))
      else (th, []))"

definition update_frequency_gain :: "int \<Rightarrow> serial_thread \<Rightarrow> serial_thread \<times> msg list" where
  "update_frequency_gain g th = (th\<lparr>current_coeffs := coeffs_of g\<rparr>, [Coeffs_updated_msg g])"

datatype freq = F2KHz | F1KHz | F500Hz | F250Hz

fun FREQ_G_MAP :: "freq \<Rightarrow> int" where
  "FREQ_G_MAP F2KHz = 0"
| "FREQ_G_MAP F1KHz = 1"
| "FREQ_G_MAP F500Hz = 2"
| "FREQ_G_MAP F250Hz = 3"

section \<open>The outgoing configuration packet\<close>

text \<open>
  The text of a \<open>QLineEdit\<close> is a Python \<open>str\<close>: the list of its code points, of any
  length and with any characters. \<open>ustr\<close> writes such a text from its ASCII spelling.
\<close>
type_synonym pystr = "nat list"

definition ustr :: "string \<Rightarrow> pystr" where
  "ustr s = map of_char s"

text \<open>
  What \<open>str.strip\<close> and \<open>int\<close> look up in the Unicode character database for the code
  points from 128 on: whether a code point is whitespace, and the value of a code point
  that is a decimal digit. The database belongs to the interpreter, not to the repository,
  and is a parameter of everything that reads a text.
\<close>
record unicode_db =
  uni_space :: "nat \<Rightarrow> bool"
  uni_decimal :: "nat \<Rightarrow> nat option"

text \<open>\<open>str.isspace\<close> on one code point.\<close>
definition py_isspace :: "unicode_db \<Rightarrow> nat \<Rightarrow> bool" where
  "py_isspace db c =
     (if c < 128 then (9 \<le> c \<and> c \<le> 13) \<or> (28 \<le> c \<and> c \<le> 32) else uni_space db c)"

text \<open>The value of a code point as a decimal digit, if it is one.\<close>
definition py_decimal :: "unicode_db \<Rightarrow> nat \<Rightarrow> nat option" where
  "py_decimal db c =
     (if c < 128 then (if 48 \<le> c \<and> c \<le> 57 then Some (c - 48) else None)
      else uni_decimal db c)"

text \<open>\<open>str.strip()\<close>.\<close>
definition py_strip :: "unicode_db \<Rightarrow> pystr \<Rightarrow> pystr" where
  "py_strip db s = rev (dropWhile (py_isspace db) (rev (dropWhile (py_isspace db) s)))"

text \<open>
  \<open>int\<close> first turns its argument into ASCII: a text of ASCII characters is taken as it
  is; in any other text a code point below 127 is kept, whitespace becomes a space, a
  decimal digit becomes the ASCII digit of its value, and at any other code point the text
  is cut off with a question mark in its place.
\<close>
fun to_ascii :: "unicode_db \<Rightarrow> pystr \<Rightarrow> string" where
  "to_ascii db [] = []"
| "to_ascii db (c # cs) =
     (if c < 127 then char_of c # to_ascii db cs
      else if py_isspace db c then CHR '' '' # to_ascii db cs
      else (case py_decimal db c of
              None \<Rightarrow> [CHR ''?'']
            | Some d \<Rightarrow> char_of (48 + d) # to_ascii db cs))"

definition int_argument :: "unicode_db \<Rightarrow> pystr \<Rightarrow> string" where
  "int_argument db text =
     (if list_all (\<lambda>c. c < 128) text then map char_of text else to_ascii db text)"

text \<open>The whitespace that the parser of \<open>int\<close> skips at both ends of the ASCII text.\<close>
definition int_isspace :: "char \<Rightarrow> bool" where
  "int_isspace c =
     (let n = (of_char c :: nat)
      in (9 \<le> n \<and> n \<le> 13) \<or> n = 32)"

text \<open>
  The value of an ASCII character as a digit: 0 to 9 for the digits, 10 to 35 for the
  letters of either case, 37 for any other character.
\<close>
definition digit_value :: "char \<Rightarrow> nat" where
  "digit_value c =
     (let n = (of_char c :: nat)
      in if 48 \<le> n \<and> n \<le> 57 then n - 48
         else if 97 \<le> n \<and> n \<le> 122 then n - 87
         else if 65 \<le> n \<and> n \<le> 90 then n - 55
         else 37)"

text \<open>
  The digits of a base-16 literal: hexadecimal digits with single underscores between
  them, none at the end. \<open>prev\<close> is the character read before.
\<close>
fun scan_digits :: "char \<Rightarrow> nat \<Rightarrow> string \<Rightarrow> nat option" where
  "scan_digits prev acc [] = (if prev = CHR ''_'' then None else Some acc)"
| "scan_digits prev acc (c # cs) =
     (if c = CHR ''_'' then (if prev = CHR ''_'' then None else scan_digits c acc cs)
      else if digit_value c < 16 then scan_digits c (acc * 16 + digit_value c) cs
      else None)"

text \<open>
  The parser of \<open>int\<close> for base 16 on the ASCII text, in its stages: the whitespace at both
  ends is skipped, then an optional sign, then an optional \<open>0x\<close> or \<open>0X\<close> (one underscore
  may follow it), then come the digits, which may not start with an underscore. \<open>None\<close>
  is \<open>ValueError\<close>.
\<close>
definition int_strip :: "string \<Rightarrow> string" where
  "int_strip s = rev (dropWhile int_isspace (rev (dropWhile int_isspace s)))"

fun split_sign :: "string \<Rightarrow> int \<times> string" where
  "split_sign [] = (1, [])"
| "split_sign (c # r) =
     (if c = CHR ''+'' then (1, r) else if c = CHR ''-'' then (- 1, r) else (1, c # r))"

fun skip_prefix16 :: "string \<Rightarrow> string" where
  "skip_prefix16 (c # x # r) =
     (if c = CHR ''0'' \<and> (x = CHR ''x'' \<or> x = CHR ''X'')
      then (case r of [] \<Rightarrow> r | u # r' \<Rightarrow> if u = CHR ''_'' then r' else r)
      else c # x # r)"
| "skip_prefix16 s = s"

definition parse_int16 :: "string \<Rightarrow> int option" where
  "parse_int16 s =
     (case split_sign (int_strip s) of
        (sign, s1) \<Rightarrow>
          let s2 = skip_prefix16 s1
          in case s2 of
               [] \<Rightarrow> None
             | c # r \<Rightarrow> if c = CHR ''_'' then None
                        else map_option (\<lambda>n. sign * int n) (scan_digits (CHR 0x00) 0 s2))"

text \<open>\<open>int(text, 16)\<close>.\<close>
definition py_int16 :: "unicode_db \<Rightarrow> pystr \<Rightarrow> int option" where
  "py_int16 db text = parse_int16 (int_argument db text)"

text \<open>An entry of \<open>send_structure\<close>: a fixed byte, or the line edit at a position.\<close>
datatype item = Fixed int | LineEdit nat

definition fixed_vals :: "nat \<rightharpoonup> int" where
  "fixed_vals = map_of
     [(1, 0x24), (3, 0x25), (5, 0x26), (7, 0x27), (9, 0x28), (11, 0x29),
      (13, 0x2A), (15, 0x2B), (17, 0x2C), (19, 0x2D), (21, 0x2E)]"

text \<open>The loop \<open>for i in range(25)\<close> of \<open>init_ui\<close>, as far as it fills \<open>send_structure\<close>.\<close>
definition send_structure :: "item list" where
  "send_structure =
     map (\<lambda>i. case fixed_vals i of Some val \<Rightarrow> Fixed val | None \<Rightarrow> LineEdit i) [0..<25]"

text \<open>Lines 299 to 302: the byte for one line edit, or the \<open>ValueError\<close>.\<close>
definition field_value :: "unicode_db \<Rightarrow> pystr \<Rightarrow> error + byte" where
  "field_value db widget_text =
     (let text = py_strip db widget_text
      in case (if text \<noteq> [] then py_int16 db text else Some 0) of
           None \<Rightarrow> Inl ValueError
         | Some val \<Rightarrow> if \<not> (0 \<le> val \<and> val \<le> 255) then Inl ValueError
                       else Inr (word_of_int val))"

text \<open>
  The body of the \<open>for item in self.send_structure\<close> loop (lines 297 to 302): the byte
  to append, or the \<open>ValueError\<close>; \<open>bytearray.append\<close> raises it outside \<open>range(256)\<close>.
\<close>
fun item_byte :: "unicode_db \<Rightarrow> (nat \<Rightarrow> pystr) \<Rightarrow> item \<Rightarrow> error + byte" where
  "item_byte db texts (Fixed v) =
     (if 0 \<le> v \<and> v \<le> 255 then Inr (word_of_int v) else Inl ValueError)"
| "item_byte db texts (LineEdit i) = field_value db (texts i)"

text \<open>The loop (lines 296 to 302) from the packet built so far.\<close>
fun build_packet ::
  "unicode_db \<Rightarrow> (nat \<Rightarrow> pystr) \<Rightarrow> item list \<Rightarrow> byte list \<Rightarrow> error + byte list" where
  "build_packet db texts [] packet = Inr packet"
| "build_packet db texts (item # items) packet =
     (case item_byte db texts item of
        Inl e \<Rightarrow> Inl e
      | Inr b \<Rightarrow> build_packet db texts items (packet @ [b]))"

section \<open>The main window: sample hand-off and the plot timer\<close>

text \<open>
  An open file of \<open>start_save\<close>. A line is the header or the row of one sample (the
  text with eight decimals is not modelled). \<open>writes_left\<close> is the device: \<open>Some n\<close>
  accepts \<open>n\<close> more writes and raises on the next one, \<open>None\<close> never raises.
\<close>
datatype line = Header | Row sample

record out_file =
  written :: "line list"
  writes_left :: "nat option"

definition file_write :: "out_file \<Rightarrow> line \<Rightarrow> out_file option" where
  "file_write f l =
     (case writes_left f of
        None \<Rightarrow> Some (f\<lparr>written := written f @ [l]\<rparr>)
      | Some n \<Rightarrow> if n = 0 then None
                  else Some (f\<lparr>written := written f @ [l], writes_left := Some (n - 1)\<rparr>))"

text \<open>
  The \<open>for row_data in new_processed\<close> loop of lines 334 to 336: \<open>Inr\<close> the file after
  all rows, \<open>Inl\<close> the file as the raising write left it.
\<close>
fun write_rows :: "out_file \<Rightarrow> sample list \<Rightarrow> out_file + out_file" where
  "write_rows f [] = Inr f"
| "write_rows f (row_data # rest) =
     (case file_write f (Row row_data) of
        None \<Rightarrow> Inl f
      | Some f' \<Rightarrow> write_rows f' rest)"

text \<open>\<open>self.plot_len = 1000\<close>: the capacity the four deques are created with.\<close>
definition plot_len :: nat where
  "plot_len = 1000"

record main_window =
  data_ch1 :: "real list"
  data_ch2 :: "real list"
  data_ch3 :: "real list"
  data_ch4 :: "real list"
  temp_buffer :: "event list"
  save_file :: "out_file option"
  is_saving :: bool
  thread :: serial_thread
  combo_freq :: freq
  line_text :: "nat \<Rightarrow> pystr"
  curve1 :: "real list"
  curve2 :: "real list"
  curve3 :: "real list"
  curve4 :: "real list"
  txt_raw_display :: string
  stdout :: "msg list"
  dialogs :: "dialog list"

text \<open>
  \<open>deque.append\<close> on a deque of capacity \<open>maxlen\<close>: a full deque drops its oldest
  entry, a deque of capacity 0 takes nothing. \<open>deque.extend\<close> appends one by one.
\<close>
definition deque_append :: "nat \<Rightarrow> 'a list \<Rightarrow> 'a \<Rightarrow> 'a list" where
  "deque_append maxlen d x =
     (if maxlen = 0 then d else if maxlen \<le> length d then tl d @ [x] else d @ [x])"

definition deque_extend :: "nat \<Rightarrow> 'a list \<Rightarrow> 'a list \<Rightarrow> 'a list" where
  "deque_extend maxlen d xs = foldl (deque_append maxlen) d xs"

text \<open>The four columns \<open>new_processed_np[:, k]\<close>.\<close>
fun col0 :: "sample \<Rightarrow> real" where "col0 (a, b, c, d) = a"
fun col1 :: "sample \<Rightarrow> real" where "col1 (a, b, c, d) = b"
fun col2 :: "sample \<Rightarrow> real" where "col2 (a, b, c, d) = c"
fun col3 :: "sample \<Rightarrow> real" where "col3 (a, b, c, d) = d"

text \<open>\<open>xs[-n:]\<close> for \<open>n > 0\<close>.\<close>
definition last_n :: "nat \<Rightarrow> 'a list \<Rightarrow> 'a list" where
  "last_n n xs = drop (length xs - n) xs"

text \<open>\<open>sep.join(xs)\<close>.\<close>
fun join :: "string \<Rightarrow> string list \<Rightarrow> string" where
  "join sep [] = []"
| "join sep [x] = x"
| "join sep (x # y # ys) = x @ sep @ join sep (y # ys)"

definition hex_char :: "nat \<Rightarrow> char" where
  "hex_char n = ''0123456789ABCDEF'' ! n"

text \<open>\<open>f"{b:02X}"\<close> for a byte.\<close>
definition fmt_02X :: "byte \<Rightarrow> string" where
  "fmt_02X b = [hex_char (unat b div 16), hex_char (unat b mod 16)]"

text \<open>\<open>" ".join([f"{b:02X}" for b in frame])\<close>.\<close>
definition hex_str :: "byte list \<Rightarrow> string" where
  "hex_str frame = join '' '' (map fmt_02X frame)"

definition on_data_received :: "main_window \<Rightarrow> event \<Rightarrow> main_window" where
  "on_data_received w ev = w\<lparr>temp_buffer := temp_buffer w @ [ev]\<rparr>"

text \<open>
  \<open>stop_save\<close>: \<open>close\<close> may raise, which is ignored. The buttons are not modelled.
\<close>
definition stop_save :: "main_window \<Rightarrow> main_window" where
  "stop_save w = w\<lparr>is_saving := False, save_file := None\<rparr>"

text \<open>Lines 314 to 316: the pending events, and the window with the list emptied.\<close>
definition drain_all :: "main_window \<Rightarrow> event list \<times> main_window" where
  "drain_all w = (temp_buffer w, w\<lparr>temp_buffer := []\<rparr>)"

definition update_plot :: "main_window \<Rightarrow> main_window" where
  "update_plot w =
     (if temp_buffer w = [] then w
      else
        (case drain_all w of (batch, w1) \<Rightarrow>
           let new_processed = map fst batch;
               new_raw = map snd batch;
               w2 = w1\<lparr>data_ch1 := deque_extend plot_len (data_ch1 w1) (map col0 new_processed),
                        data_ch2 := deque_extend plot_len (data_ch2 w1) (map col1 new_processed),
                        data_ch3 := deque_extend plot_len (data_ch3 w1) (map col2 new_processed),
                        data_ch4 := deque_extend plot_len (data_ch4 w1) (map col3 new_processed)\<rparr>;
               w3 = w2\<lparr>curve1 := data_ch1 w2, curve2 := data_ch2 w2,
                        curve3 := data_ch3 w2, curve4 := data_ch4 w2\<rparr>;
               display_chunk = last_n 5 new_raw;
               text_lines = map hex_str display_chunk;
               w4 = w3\<lparr>txt_raw_display := join [CHR 0x0A] text_lines\<rparr>
           in (case save_file w4 of
                 Some f \<Rightarrow>
                   if is_saving w4 then
                     (case write_rows f new_processed of
                        Inr f' \<Rightarrow> w4\<lparr>save_file := Some f'\<rparr>
                      | Inl f' \<Rightarrow>
                          stop_save (w4\<lparr>save_file := Some f',
                                          stdout := stdout w4 @ [Write_file_failed_msg]\<rparr>))
                   else w4
               | None \<Rightarrow> w4)))"

definition update_coeff_only :: "main_window \<Rightarrow> main_window" where
  "update_coeff_only w =
     (let g = FREQ_G_MAP (combo_freq w)
      in case update_frequency_gain g (thread w) of
           (th, out) \<Rightarrow> w\<lparr>thread := th, stdout := stdout w @ out\<rparr>)"

definition construct_and_send :: "unicode_db \<Rightarrow> main_window \<Rightarrow> main_window" where
  "construct_and_send db w =
     (if \<not> is_running (thread w) then w\<lparr>dialogs := dialogs w @ [Warning_open_port_first]\<rparr>
      else
        (case build_packet db (line_text w) send_structure [] of
           Inr packet \<Rightarrow>
             (case send_data packet (thread w) of
                (th, out) \<Rightarrow> update_coeff_only (w\<lparr>thread := th, stdout := stdout w @ out\<rparr>))
         | Inl e \<Rightarrow> w\<lparr>dialogs := dialogs w @ [Critical_send_error]\<rparr>))"

text \<open>A run of timer ticks, each after the events received since the tick before.\<close>
definition tick_after :: "main_window \<Rightarrow> event list \<Rightarrow> main_window" where
  "tick_after w evs = update_plot (foldl on_data_received w evs)"

section \<open>Initial state and concrete inputs\<close>

text \<open>\<open>SerialThread.__init__\<close>; the receive buffer starts as \<open>bytearray()\<close>, that is \<open>[]\<close>.\<close>
definition init_thread :: serial_thread where
  "init_thread =
     \<lparr>is_running = False, port_is_open = False, port_write_raises = False,
      port_written = [], current_coeffs = coeffs_of 0\<rparr>"

text \<open>\<open>MainWindow.__init__\<close> and the widgets of \<open>init_ui\<close>: every line edit holds \<open>00\<close>.\<close>
definition init_window :: main_window where
  "init_window =
     \<lparr>data_ch1 = replicate plot_len 0, data_ch2 = replicate plot_len 0,
      data_ch3 = replicate plot_len 0, data_ch4 = replicate plot_len 0,
      temp_buffer = [], save_file = None, is_saving = False,
      thread = init_thread, combo_freq = F2KHz, line_text = (\<lambda>i. ustr ''00''),
      curve1 = [], curve2 = [], curve3 = [], curve4 = [],
      txt_raw_display = [], stdout = [], dialogs = []\<rparr>"

text \<open>
  The window after \<open>toggle_serial\<close> has opened the port (lines 272 to 275): the thread
  runs, the port is open, and the coefficients are those of the selected frequency.
\<close>
definition connected_window :: main_window where
  "connected_window =
     update_coeff_only
       (init_window\<lparr>thread := (thread init_window)\<lparr>is_running := True, port_is_open := True\<rparr>\<rparr>)"

text \<open>
  An excerpt of the Unicode database: the whitespace from 128 on, and two of the rows of
  decimal digits, the Arabic-Indic digits from \<open>U+0660\<close> and the fullwidth digits from
  \<open>U+FF10\<close>.
\<close>
definition sample_db :: unicode_db where
  "sample_db =
     \<lparr>uni_space = (\<lambda>c. c \<in> {0x85, 0xA0, 0x1680, 0x2028, 0x2029, 0x202F, 0x205F, 0x3000}
                         \<or> (0x2000 \<le> c \<and> c \<le> 0x200A)),
      uni_decimal = (\<lambda>c. if 0x660 \<le> c \<and> c \<le> 0x669 then Some (c - 0x660)
                          else if 0xFF10 \<le> c \<and> c \<le> 0xFF19 then Some (c - 0xFF10)
                          else None)\<rparr>"




text \<open>
  The frame of the end-to-end example: \<open>AA 00 00\<close>, field 1 with the value 1, three
  fields of zeros and a trailing byte \<open>t\<close>.
\<close>
definition example_frame :: "byte \<Rightarrow> byte list" where
  "example_frame t =
     [0xAA, 0, 0] @ (replicate 10 0 @ [1]) @ replicate 11 0 @ replicate 7 0 @ replicate 7 0 @ [t]"

text \<open>An event as the receive thread emits it for the example frame.\<close>
definition example_event :: "byte \<Rightarrow> event" where
  "example_event t = ((1 / (21 * 2 ^ 51 / 125), 0, 0, 0), example_frame t)"

text \<open>
  A connected window that is saving to a file which holds the header and accepts one more
  write, with two events pending.
\<close>
definition failing_window :: main_window where
  "failing_window =
     connected_window
       \<lparr>temp_buffer := [example_event 1, example_event 2],
        save_file := Some \<lparr>written = [Header], writes_left = Some 1\<rparr>,
        is_saving := True\<rparr>"

subsection \<open>Facts about the loop\<close>

lemma sync_loop_short: "length buf < FRAME_LEN \<Longrightarrow> sync_loop cs buf = ([], buf)"
  by (simp add: sync_loop.simps)

lemma sync_loop_long:
  "FRAME_LEN \<le> length buf \<Longrightarrow>
   sync_loop cs buf =
     (fst (loop_body cs buf) @ fst (sync_loop cs (snd (loop_body cs buf))),
      snd (sync_loop cs (snd (loop_body cs buf))))"
  by (subst sync_loop.simps) (simp add: split_beta)

lemma loop_body_shrinks:
  "FRAME_LEN \<le> length buf \<Longrightarrow> length (snd (loop_body cs buf)) < length buf"
  by (auto simp: loop_body_def FRAME_LEN_def Let_def)

lemma loop_body_removes:
  "FRAME_LEN \<le> length buf \<Longrightarrow>
   length (snd (loop_body cs buf)) =
     (if buf ! 0 = 0xAA then length buf - FRAME_LEN else length buf - 1)"
  by (simp add: loop_body_def Let_def)

lemma loop_body_append:
  "FRAME_LEN \<le> length buf \<Longrightarrow>
   loop_body cs (buf @ raw) = (fst (loop_body cs buf), snd (loop_body cs buf) @ raw)"
  by (cases buf) (simp_all add: loop_body_def py_slice_def Let_def FRAME_LEN_def)

lemma sync_loop_residual: "length (snd (sync_loop cs buf)) < FRAME_LEN"
proof (induction cs buf rule: sync_loop.induct)
  case (1 cs buf)
  show ?case
  proof (cases "FRAME_LEN \<le> length buf")
    case True
    with 1 [OF True, of "fst (loop_body cs buf)" "snd (loop_body cs buf)"]
    show ?thesis by (simp add: sync_loop_long)
  next
    case False
    then show ?thesis by (simp add: sync_loop_short)
  qed
qed

lemma sync_loop_append:
  "sync_loop cs (buf @ raw) =
     (fst (sync_loop cs buf) @ fst (sync_loop cs (snd (sync_loop cs buf) @ raw)),
      snd (sync_loop cs (snd (sync_loop cs buf) @ raw)))"
proof (induction cs buf rule: sync_loop.induct)
  case (1 cs buf)
  show ?case
  proof (cases "FRAME_LEN \<le> length buf")
    case True
    then have long: "FRAME_LEN \<le> length (buf @ raw)" by simp
    have ih: "sync_loop cs (snd (loop_body cs buf) @ raw) =
        (fst (sync_loop cs (snd (loop_body cs buf))) @
           fst (sync_loop cs (snd (sync_loop cs (snd (loop_body cs buf))) @ raw)),
         snd (sync_loop cs (snd (sync_loop cs (snd (loop_body cs buf))) @ raw)))"
      using 1 [OF True, of "fst (loop_body cs buf)" "snd (loop_body cs buf)"] by simp
    show ?thesis
      by (subst sync_loop_long [OF long])
         (simp add: loop_body_append [OF True] ih sync_loop_long [OF True])
  next
    case False
    then show ?thesis by (simp add: sync_loop_short)
  qed
qed

lemma run_iter_residual:
  "length buf < FRAME_LEN \<Longrightarrow> length (snd (run_iter cs buf raw)) < FRAME_LEN"
  by (simp add: run_iter_def sync_loop_residual)

lemma run_iter_sync:
  "length buf < FRAME_LEN \<Longrightarrow> run_iter cs buf raw = sync_loop cs (buf @ raw)"
  by (simp add: run_iter_def sync_loop_short)

lemma run_chunks_sync:
  "length buf < FRAME_LEN \<Longrightarrow> run_chunks cs buf raws = sync_loop cs (buf @ concat raws)"
proof (induction raws arbitrary: buf)
  case Nil
  then show ?case by (simp add: sync_loop_short)
next
  case (Cons raw raws)
  have r: "length (snd (run_iter cs buf raw)) < FRAME_LEN"
    using Cons.prems by (rule run_iter_residual)
  have "run_chunks cs buf (raw # raws) =
      (fst (sync_loop cs (buf @ raw)) @
         fst (sync_loop cs (snd (sync_loop cs (buf @ raw)) @ concat raws)),
       snd (sync_loop cs (snd (sync_loop cs (buf @ raw)) @ concat raws)))"
    using Cons.IH [OF r] by (simp add: split_beta run_iter_sync [OF Cons.prems])
  also have "\<dots> = sync_loop cs ((buf @ raw) @ concat raws)"
    by (rule sync_loop_append [symmetric])
  finally show ?case by simp
qed

subsection \<open>Chunk-boundary independence\<close>

text \<open>
  Claim C1. Starting from the empty buffer of \<open>SerialThread.__init__\<close>, reading a byte
  stream in any sequence of chunks emits the same events (samples and frames, in the same
  order) and leaves the same buffer as reading the whole stream in one chunk.
\<close>
theorem chunk_boundary_independence:
  "run_chunks cs [] raws = run_iter cs [] (concat raws)"
proof -
  have "run_chunks cs [] raws = sync_loop cs ([] @ concat raws)"
    by (rule run_chunks_sync) (simp add: FRAME_LEN_def)
  also have "\<dots> = run_iter cs [] (concat raws)"
  proof (cases "concat raws = []")
    case True
    have "sync_loop cs [] = ([], [])"
      by (rule sync_loop_short) (simp add: FRAME_LEN_def)
    then show ?thesis unfolding run_iter_def True by simp
  next
    case False
    then show ?thesis unfolding run_iter_def by auto
  qed
  finally show ?thesis .
qed

subsection \<open>Frames and residual buffer\<close>

lemma loop_body_events:
  "FRAME_LEN \<le> length buf \<Longrightarrow> e \<in> set (fst (loop_body cs buf)) \<Longrightarrow>
   buf ! 0 = 0xAA \<and> snd e = take FRAME_LEN buf \<and> decode cs (snd e) = Some (fst e)"
  by (auto simp: loop_body_def py_slice_def Let_def split: if_splits option.splits)

lemma sync_loop_events:
  "e \<in> set (fst (sync_loop cs buf)) \<Longrightarrow>
   length (snd e) = FRAME_LEN \<and> snd e ! 0 = 0xAA \<and> decode cs (snd e) = Some (fst e)"
proof (induction cs buf rule: sync_loop.induct)
  case (1 cs buf)
  show ?case
  proof (cases "FRAME_LEN \<le> length buf")
    case True
    from "1.prems" have "e \<in> set (fst (loop_body cs buf)) \<or>
        e \<in> set (fst (sync_loop cs (snd (loop_body cs buf))))"
      by (simp add: sync_loop_long [OF True])
    then show ?thesis
    proof
      assume "e \<in> set (fst (loop_body cs buf))"
      from loop_body_events [OF True this] True show ?thesis
        by (auto simp: FRAME_LEN_def)
    next
      assume "e \<in> set (fst (sync_loop cs (snd (loop_body cs buf))))"
      with 1 (1) [OF True, of "fst (loop_body cs buf)" "snd (loop_body cs buf)"]
      show ?thesis by simp
    qed
  next
    case False
    with "1.prems" show ?thesis by (simp add: sync_loop_short)
  qed
qed

lemma loop_body_no_sentinel:
  "FRAME_LEN \<le> length buf \<Longrightarrow> 0xAA \<notin> set buf \<Longrightarrow> loop_body cs buf = ([], drop 1 buf)"
proof -
  assume len: "FRAME_LEN \<le> length buf" and no: "0xAA \<notin> set buf"
  from len have "buf ! 0 \<in> set buf" by (cases buf) (simp_all add: FRAME_LEN_def)
  with no have "buf ! 0 \<noteq> 0xAA" by metis
  then show ?thesis by (simp add: loop_body_def)
qed

lemma sync_loop_no_sentinel: "0xAA \<notin> set buf \<Longrightarrow> fst (sync_loop cs buf) = []"
proof (induction cs buf rule: sync_loop.induct)
  case (1 cs buf)
  show ?case
  proof (cases "FRAME_LEN \<le> length buf")
    case True
    have body: "loop_body cs buf = ([], drop 1 buf)"
      using True "1.prems" by (rule loop_body_no_sentinel)
    have "0xAA \<notin> set (drop 1 buf)"
      using "1.prems" by (metis in_set_dropD)
    with 1 (1) [OF True, of "[]" "drop 1 buf"] body
    show ?thesis by (simp add: sync_loop_long [OF True])
  next
    case False
    then show ?thesis by (simp add: sync_loop_short)
  qed
qed

lemma loop_body_suffix: "suffix (snd (loop_body cs buf)) buf"
  by (simp add: loop_body_def Let_def suffix_drop)

lemma sync_loop_suffix: "suffix (snd (sync_loop cs buf)) buf"
proof (induction cs buf rule: sync_loop.induct)
  case (1 cs buf)
  show ?case
  proof (cases "FRAME_LEN \<le> length buf")
    case True
    have "suffix (snd (sync_loop cs (snd (loop_body cs buf)))) (snd (loop_body cs buf))"
      using 1 [OF True, of "fst (loop_body cs buf)" "snd (loop_body cs buf)"] by simp
    then have "suffix (snd (sync_loop cs (snd (loop_body cs buf)))) buf"
      using loop_body_suffix by (rule suffix_order.trans)
    then show ?thesis by (simp add: sync_loop_long [OF True])
  next
    case False
    then show ?thesis by (simp add: sync_loop_short)
  qed
qed

lemma loop_iterations:
  "\<exists>k\<le>length buf.
     (loop_step cs ^^ k) (acc, buf) = (acc @ fst (sync_loop cs buf), snd (sync_loop cs buf)) \<and>
     (\<forall>j<k. FRAME_LEN \<le> length (snd ((loop_step cs ^^ j) (acc, buf))))"
proof (induction cs buf arbitrary: acc rule: sync_loop.induct)
  case (1 cs buf)
  show ?case
  proof (cases "FRAME_LEN \<le> length buf")
    case True
    let ?em = "fst (loop_body cs buf)" and ?b = "snd (loop_body cs buf)"
    have step: "loop_step cs (acc, buf) = (acc @ ?em, ?b)"
      by (simp add: loop_step_def split_beta)
    from 1 [OF True, of ?em ?b "acc @ ?em"]
    obtain k where k: "k \<le> length ?b"
      and run: "(loop_step cs ^^ k) (acc @ ?em, ?b) =
                  ((acc @ ?em) @ fst (sync_loop cs ?b), snd (sync_loop cs ?b))"
      and guard: "\<forall>j<k. FRAME_LEN \<le> length (snd ((loop_step cs ^^ j) (acc @ ?em, ?b)))"
      by auto
    have "Suc k \<le> length buf"
      using k loop_body_shrinks [OF True, of cs] by simp
    moreover have "(loop_step cs ^^ Suc k) (acc, buf) =
        (acc @ fst (sync_loop cs buf), snd (sync_loop cs buf))"
      by (simp add: funpow_swap1 step run sync_loop_long [OF True])
    moreover have "\<forall>j<Suc k. FRAME_LEN \<le> length (snd ((loop_step cs ^^ j) (acc, buf)))"
    proof (intro allI impI)
      fix j assume j: "j < Suc k"
      show "FRAME_LEN \<le> length (snd ((loop_step cs ^^ j) (acc, buf)))"
      proof (cases j)
        case 0
        with True show ?thesis by simp
      next
        case (Suc i)
        with j guard show ?thesis by (simp add: funpow_swap1 step)
      qed
    qed
    ultimately show ?thesis by blast
  next
    case False
    then have "(loop_step cs ^^ 0) (acc, buf) =
        (acc @ fst (sync_loop cs buf), snd (sync_loop cs buf))"
      by (simp add: sync_loop_short)
    then show ?thesis by blast
  qed
qed

subsection \<open>Evaluating the loop on given bytes\<close>

lemma sync_loop_skip:
  "FRAME_LEN \<le> length (b # buf) \<Longrightarrow> b \<noteq> 0xAA \<Longrightarrow> sync_loop cs (b # buf) = sync_loop cs buf"
  by (simp add: sync_loop_long loop_body_def)

lemma sync_loop_frame:
  "length frame = FRAME_LEN \<Longrightarrow> frame ! 0 = 0xAA \<Longrightarrow> decode cs frame = Some pd \<Longrightarrow>
   sync_loop cs (frame @ rest) =
     ((pd, frame) # fst (sync_loop cs rest), snd (sync_loop cs rest))"
  by (cases frame) (simp_all add: sync_loop_long loop_body_def py_slice_def FRAME_LEN_def)

lemma sync_loop_Nil: "sync_loop cs [] = ([], [])"
  by (rule sync_loop_short) (simp add: FRAME_LEN_def)

lemma replicate_numeral_unfold: "replicate (numeral k) x = x # replicate (pred_numeral k) x"
  by (simp add: numeral_eq_Suc)

lemma example_frame_bytes:
  "example_frame t =
     [0xAA, 0, 0, 0, 0, 0, 0, 0, 0, 0, 0, 0, 0, 1, 0, 0, 0, 0, 0, 0, 0, 0, 0, 0, 0,
      0, 0, 0, 0, 0, 0, 0, 0, 0, 0, 0, 0, 0, 0, t]"
  by (simp add: example_frame_def replicate_numeral_unfold)

lemma example_frame_length: "length (example_frame t) = FRAME_LEN"
  by (simp add: example_frame_def FRAME_LEN_def)

lemma example_frame_sentinel: "example_frame t ! 0 = 0xAA"
  by (simp add: example_frame_def)

lemma example_frame_decode:
  "decode (coeffs_of 0) (example_frame t) = Some (1 / (21 * 2 ^ 51 / 125), 0, 0, 0)"
  by (simp add: example_frame_bytes decode_def coeffs_of_def calculate_coeffs_def pow2_def
      py_slice_def from_bytes_big_def)

lemma example_frame_sync:
  "sync_loop (coeffs_of 0) (example_frame t @ rest) =
     (((1 / (21 * 2 ^ 51 / 125), 0, 0, 0), example_frame t) # fst (sync_loop (coeffs_of 0) rest),
      snd (sync_loop (coeffs_of 0) rest))"
  by (rule sync_loop_frame [OF example_frame_length example_frame_sentinel example_frame_decode])

lemma example_frame_alone:
  "sync_loop (coeffs_of 0) (example_frame t) =
     ([((1 / (21 * 2 ^ 51 / 125), 0, 0, 0), example_frame t)], [])"
  using example_frame_sync [of t "[]"] by (simp add: sync_loop_Nil)

lemma example_frame_not_Nil: "example_frame t \<noteq> []"
  by (simp add: example_frame_def)

subsection \<open>No sentinel, no frame\<close>

text \<open>
  Claim C3. Reading, from the empty buffer, chunks that hold no byte \<open>0xAA\<close> emits
  nothing; and every event that is ever emitted carries a frame of exactly
  \<open>FRAME_LEN\<close> bytes whose byte 0 is \<open>0xAA\<close>, with the sample the decoder computed from
  that frame.
\<close>
theorem no_sentinel_no_frame:
  "(0xAA \<notin> set (concat raws) \<longrightarrow> fst (run_chunks cs [] raws) = []) \<and>
   (\<forall>e \<in> set (fst (run_chunks cs [] raws)).
      length (snd e) = FRAME_LEN \<and> snd e ! 0 = 0xAA \<and> decode cs (snd e) = Some (fst e))"
proof -
  have "run_chunks cs [] raws = sync_loop cs ([] @ concat raws)"
    by (rule run_chunks_sync) (simp add: FRAME_LEN_def)
  then have eq: "run_chunks cs [] raws = sync_loop cs (concat raws)" by simp
  show ?thesis
    unfolding eq using sync_loop_no_sentinel [of "concat raws" cs] sync_loop_events [of _ cs "concat raws"]
    by blast
qed

theorem no_sentinel_no_frame_witness:
  "0xAA \<notin> set (concat [replicate 30 0, replicate 30 (0 :: byte)]) \<and>
   fst (run_chunks (coeffs_of 0) [] [replicate 30 0, replicate 30 0]) = [] \<and>
   ((1 / (21 * 2 ^ 51 / 125), 0, 0, 0), example_frame 0)
     \<in> set (fst (run_chunks (coeffs_of 0) [] [[7, 7], example_frame 0])) \<and>
   length (example_frame 0) = FRAME_LEN \<and> example_frame 0 ! 0 = 0xAA"
proof -
  have run: "run_chunks (coeffs_of 0) [] [[7, 7], example_frame 0] =
      ([((1 / (21 * 2 ^ 51 / 125), 0, 0, 0), example_frame 0)], [])"
  proof -
    have "run_chunks (coeffs_of 0) [] [[7, 7], example_frame 0] =
        sync_loop (coeffs_of 0) ([] @ concat [[7, 7], example_frame 0])"
      by (rule run_chunks_sync) (simp add: FRAME_LEN_def)
    also have "\<dots> = sync_loop (coeffs_of 0) (7 # 7 # example_frame 0)"
      by simp
    also have "\<dots> = sync_loop (coeffs_of 0) (example_frame 0)"
      by (simp add: sync_loop_skip example_frame_length)
    finally show ?thesis
      by (simp add: example_frame_alone)
  qed
  have mem: "((1 / (21 * 2 ^ 51 / 125), 0, 0, 0), example_frame 0)
      \<in> set (fst (run_chunks (coeffs_of 0) [] [[7, 7], example_frame 0]))"
    unfolding run by simp
  have quiet: "0xAA \<notin> set (concat [replicate 30 0, replicate 30 (0 :: byte)])"
    by simp
  have none: "fst (run_chunks (coeffs_of 0) [] [replicate 30 0, replicate 30 0]) = []"
    using no_sentinel_no_frame [of "[replicate 30 0, replicate 30 0]" "coeffs_of 0"] quiet
    by blast
  have frame: "length (example_frame 0) = FRAME_LEN \<and> example_frame 0 ! 0 = 0xAA"
    using no_sentinel_no_frame [of "[[7, 7], example_frame 0]" "coeffs_of 0"] mem
    by fastforce
  from quiet none mem frame show ?thesis by blast
qed

subsection \<open>Termination and the residual buffer\<close>

text \<open>
  Claim C10. Every iteration of the loop removes \<open>FRAME_LEN\<close> bytes (a frame) or
  exactly one byte, so the loop ends after at most \<open>length buf\<close> iterations, with the
  result of \<open>sync_loop\<close>. What it leaves is shorter than \<open>FRAME_LEN\<close> and is the
  untouched tail of the buffer; every emitted frame is complete; and the next call works
  on that residue followed by the new bytes, so reading in two calls gives what one call
  on all the bytes gives.
\<close>
theorem sync_loop_terminates_residual:
  "(FRAME_LEN \<le> length buf \<longrightarrow>
      length (snd (loop_body cs buf)) =
        (if buf ! 0 = 0xAA then length buf - FRAME_LEN else length buf - 1) \<and>
      length (snd (loop_body cs buf)) < length buf) \<and>
   (\<exists>k\<le>length buf.
      (loop_step cs ^^ k) ([], buf) = sync_loop cs buf \<and>
      (\<forall>j<k. FRAME_LEN \<le> length (snd ((loop_step cs ^^ j) ([], buf))))) \<and>
   length (snd (sync_loop cs buf)) < FRAME_LEN \<and>
   suffix (snd (sync_loop cs buf)) buf \<and>
   (\<forall>e \<in> set (fst (sync_loop cs buf)). length (snd e) = FRAME_LEN) \<and>
   (length buf < FRAME_LEN \<longrightarrow>
      length (snd (run_iter cs buf raw)) < FRAME_LEN \<and>
      suffix (snd (run_iter cs buf raw)) (buf @ raw) \<and>
      run_iter cs (snd (run_iter cs buf raw)) raw' =
        sync_loop cs (snd (run_iter cs buf raw) @ raw') \<and>
      fst (run_iter cs buf raw) @ fst (run_iter cs (snd (run_iter cs buf raw)) raw') =
        fst (sync_loop cs (buf @ raw @ raw')) \<and>
      snd (run_iter cs (snd (run_iter cs buf raw)) raw') = snd (sync_loop cs (buf @ raw @ raw')))"
proof -
  have body: "FRAME_LEN \<le> length buf \<longrightarrow>
      length (snd (loop_body cs buf)) =
        (if buf ! 0 = 0xAA then length buf - FRAME_LEN else length buf - 1) \<and>
      length (snd (loop_body cs buf)) < length buf"
    using loop_body_removes [of buf cs] loop_body_shrinks [of buf cs] by blast
  have iter: "\<exists>k\<le>length buf.
      (loop_step cs ^^ k) ([], buf) = sync_loop cs buf \<and>
      (\<forall>j<k. FRAME_LEN \<le> length (snd ((loop_step cs ^^ j) ([], buf))))"
    using loop_iterations [of buf cs "[]"] by simp
  have frames: "\<forall>e \<in> set (fst (sync_loop cs buf)). length (snd e) = FRAME_LEN"
    using sync_loop_events [of _ cs buf] by blast
  have calls: "length buf < FRAME_LEN \<longrightarrow>
      length (snd (run_iter cs buf raw)) < FRAME_LEN \<and>
      suffix (snd (run_iter cs buf raw)) (buf @ raw) \<and>
      run_iter cs (snd (run_iter cs buf raw)) raw' =
        sync_loop cs (snd (run_iter cs buf raw) @ raw') \<and>
      fst (run_iter cs buf raw) @ fst (run_iter cs (snd (run_iter cs buf raw)) raw') =
        fst (sync_loop cs (buf @ raw @ raw')) \<and>
      snd (run_iter cs (snd (run_iter cs buf raw)) raw') = snd (sync_loop cs (buf @ raw @ raw'))"
  proof
    assume short: "length buf < FRAME_LEN"
    have one: "run_iter cs buf raw = sync_loop cs (buf @ raw)"
      using short by (rule run_iter_sync)
    have res: "length (snd (run_iter cs buf raw)) < FRAME_LEN"
      using short by (rule run_iter_residual)
    have two: "run_iter cs (snd (run_iter cs buf raw)) raw' =
        sync_loop cs (snd (run_iter cs buf raw) @ raw')"
      using res by (rule run_iter_sync)
    have whole: "sync_loop cs ((buf @ raw) @ raw') =
        (fst (sync_loop cs (buf @ raw)) @ fst (sync_loop cs (snd (sync_loop cs (buf @ raw)) @ raw')),
         snd (sync_loop cs (snd (sync_loop cs (buf @ raw)) @ raw')))"
      by (rule sync_loop_append)
    have suf: "suffix (snd (run_iter cs buf raw)) (buf @ raw)"
      unfolding one by (rule sync_loop_suffix)
    from res suf two whole show
      "length (snd (run_iter cs buf raw)) < FRAME_LEN \<and>
       suffix (snd (run_iter cs buf raw)) (buf @ raw) \<and>
       run_iter cs (snd (run_iter cs buf raw)) raw' =
         sync_loop cs (snd (run_iter cs buf raw) @ raw') \<and>
       fst (run_iter cs buf raw) @ fst (run_iter cs (snd (run_iter cs buf raw)) raw') =
         fst (sync_loop cs (buf @ raw @ raw')) \<and>
       snd (run_iter cs (snd (run_iter cs buf raw)) raw') = snd (sync_loop cs (buf @ raw @ raw'))"
      by (simp add: one)
  qed
  from body iter sync_loop_residual [of cs buf] sync_loop_suffix [of cs buf] frames calls
  show ?thesis by blast
qed

theorem sync_loop_terminates_residual_witness:
  "FRAME_LEN \<le> length (7 # example_frame 0 @ [0xAA, 1, 2]) \<and>
   length (snd (loop_body (coeffs_of 0) (7 # example_frame 0 @ [0xAA, 1, 2]))) =
     length (7 # example_frame 0 @ [0xAA, 1, 2]) - 1 \<and>
   sync_loop (coeffs_of 0) (7 # example_frame 0 @ [0xAA, 1, 2]) =
     ([((1 / (21 * 2 ^ 51 / 125), 0, 0, 0), example_frame 0)], [0xAA, 1, 2]) \<and>
   length (snd (sync_loop (coeffs_of 0) (7 # example_frame 0 @ [0xAA, 1, 2]))) < FRAME_LEN \<and>
   length [0xAA :: byte, 1, 2] < FRAME_LEN \<and>
   length (snd (run_iter (coeffs_of 0) [0xAA, 1, 2] [3])) < FRAME_LEN \<and>
   length (example_frame 0) = FRAME_LEN"
proof -
  let ?buf = "7 # example_frame 0 @ [0xAA, 1, 2]"
  have long: "FRAME_LEN \<le> length ?buf"
    by (simp add: example_frame_length)
  have short: "length [0xAA :: byte, 1, 2] < FRAME_LEN"
    by (simp add: FRAME_LEN_def)
  have "sync_loop (coeffs_of 0) ?buf = sync_loop (coeffs_of 0) (example_frame 0 @ [0xAA, 1, 2])"
    using long by (simp add: sync_loop_skip)
  then have run: "sync_loop (coeffs_of 0) ?buf =
      ([((1 / (21 * 2 ^ 51 / 125), 0, 0, 0), example_frame 0)], [0xAA, 1, 2])"
    by (simp add: example_frame_sync sync_loop_short [OF short])
  note inst = sync_loop_terminates_residual [of ?buf "coeffs_of 0"]
  have removed: "length (snd (loop_body (coeffs_of 0) ?buf)) = length ?buf - 1"
    using inst long by simp
  have residual: "length (snd (sync_loop (coeffs_of 0) ?buf)) < FRAME_LEN"
    using inst by blast
  have "\<forall>e \<in> set (fst (sync_loop (coeffs_of 0) ?buf)). length (snd e) = FRAME_LEN"
    using inst by blast
  then have frames: "length (example_frame 0) = FRAME_LEN"
    unfolding run by simp
  have "length (snd (run_iter (coeffs_of 0) [0xAA, 1, 2] [3])) < FRAME_LEN"
    using sync_loop_terminates_residual [of "[0xAA, 1, 2]" "coeffs_of 0" "[3]"] short by blast
  with long removed run residual short frames show ?thesis by blast
qed

subsection \<open>Coefficients\<close>

lemma calculate_coeffs_formulas:
  "g \<in> {0, 1, 2, 3} \<Longrightarrow>
   calculate_coeffs g = (21 * 2 ^ nat (6 * g + 51) / 125, 2 ^ nat (24 + 6 * g))"
  by (auto simp: calculate_coeffs_def pow2_def)

lemma calculate_coeffs_positive:
  "g \<in> {0, 1, 2, 3} \<Longrightarrow> 0 < fst (calculate_coeffs g) \<and> 0 < snd (calculate_coeffs g)"
  by (simp add: calculate_coeffs_formulas)

lemma calculate_coeffs_scaling:
  "g \<in> {0, 1, 2, 3} \<Longrightarrow>
   snd (calculate_coeffs g) = snd (calculate_coeffs (g - 1)) * 64 \<and>
   fst (calculate_coeffs g) = fst (calculate_coeffs (g - 1)) * 64"
  by (auto simp: calculate_coeffs_def pow2_def)

lemma coeffs_of_tuple:
  "coeffs_of g =
     (fst (calculate_coeffs g), fst (calculate_coeffs g),
      snd (calculate_coeffs g), snd (calculate_coeffs g))"
  by (simp add: coeffs_of_def split_beta)

text \<open>
  Claim C7. For a gain index \<open>g\<close> among 0, 1, 2, 3 the coefficients are
  \<open>nf = 21 * 2 ^ (6 g + 51) / 125\<close> and \<open>na = 2 ^ (24 + 6 g)\<close>; \<open>update_frequency_gain\<close>
  stores \<open>(nf, nf, na, na)\<close>; both are positive; and each is 64 times the one for
  \<open>g - 1\<close>. The division is exact division on \<open>real\<close>.
\<close>
theorem coefficient_formulas:
  "g \<in> {0, 1, 2, 3} \<Longrightarrow>
   calculate_coeffs g = (21 * 2 ^ nat (6 * g + 51) / 125, 2 ^ nat (24 + 6 * g)) \<and>
   current_coeffs (fst (update_frequency_gain g th)) =
     (fst (calculate_coeffs g), fst (calculate_coeffs g),
      snd (calculate_coeffs g), snd (calculate_coeffs g)) \<and>
   0 < fst (calculate_coeffs g) \<and> 0 < snd (calculate_coeffs g) \<and>
   snd (calculate_coeffs g) = snd (calculate_coeffs (g - 1)) * 64 \<and>
   fst (calculate_coeffs g) = fst (calculate_coeffs (g - 1)) * 64"
proof -
  assume g: "g \<in> {0, 1, 2, 3}"
  have stored: "current_coeffs (fst (update_frequency_gain g th)) =
      (fst (calculate_coeffs g), fst (calculate_coeffs g),
       snd (calculate_coeffs g), snd (calculate_coeffs g))"
    by (simp add: update_frequency_gain_def coeffs_of_tuple)
  from calculate_coeffs_formulas [OF g] stored calculate_coeffs_positive [OF g]
    calculate_coeffs_scaling [OF g]
  show ?thesis by blast
qed

theorem coefficient_formulas_witness:
  "(2 :: int) \<in> {0, 1, 2, 3} \<and>
   calculate_coeffs 2 = (21 * 2 ^ 63 / 125, 2 ^ 36) \<and>
   current_coeffs (fst (update_frequency_gain 2 init_thread)) =
     (21 * 2 ^ 63 / 125, 21 * 2 ^ 63 / 125, 2 ^ 36, 2 ^ 36) \<and>
   snd (calculate_coeffs 2) = snd (calculate_coeffs (2 - 1)) * 64 \<and>
   fst (calculate_coeffs 2) = fst (calculate_coeffs (2 - 1)) * 64"
proof -
  have g: "(2 :: int) \<in> {0, 1, 2, 3}" by simp
  note inst = coefficient_formulas [OF g, of init_thread]
  have vals: "calculate_coeffs 2 = (21 * 2 ^ 63 / 125, 2 ^ 36)"
    using inst by simp
  have stored: "current_coeffs (fst (update_frequency_gain 2 init_thread)) =
      (21 * 2 ^ 63 / 125, 21 * 2 ^ 63 / 125, 2 ^ 36, 2 ^ 36)"
    using inst by simp
  have scaling: "snd (calculate_coeffs 2) = snd (calculate_coeffs (2 - 1)) * 64 \<and>
      fst (calculate_coeffs 2) = fst (calculate_coeffs (2 - 1)) * 64"
    using inst by blast
  from g vals stored scaling show ?thesis by blast
qed

subsection \<open>Decoding a frame\<close>

lemma from_bytes_big_snoc: "from_bytes_big (bs @ [b]) = from_bytes_big bs * 256 + unat b"
  by (simp add: from_bytes_big_def)

lemma from_bytes_big_sum:
  "from_bytes_big bs = (\<Sum>i<length bs. unat (bs ! i) * 256 ^ (length bs - 1 - i))"
proof (induction bs rule: rev_induct)
  case Nil
  show ?case by (simp add: from_bytes_big_def)
next
  case (snoc b bs)
  have "(\<Sum>i<length bs. unat ((bs @ [b]) ! i) * 256 ^ (length (bs @ [b]) - 1 - i)) =
        (\<Sum>i<length bs. (unat (bs ! i) * 256 ^ (length bs - 1 - i)) * 256)"
  proof (rule sum.cong)
    fix i assume "i \<in> {..<length bs}"
    then have i: "i < length bs" by simp
    then have "length bs - i = Suc (length bs - 1 - i)" by simp
    with i show "unat ((bs @ [b]) ! i) * 256 ^ (length (bs @ [b]) - 1 - i) =
        (unat (bs ! i) * 256 ^ (length bs - 1 - i)) * 256"
      by (simp add: nth_append)
  qed simp
  then show ?case
    by (simp add: from_bytes_big_snoc snoc.IH sum_distrib_right)
qed

lemma field_sum:
  "b \<le> length xs \<Longrightarrow>
   from_bytes_big (py_slice a b xs) = (\<Sum>i<b - a. unat (xs ! (a + i)) * 256 ^ (b - a - 1 - i))"
  by (simp add: from_bytes_big_sum py_slice_def)

lemma decode_fields:
  assumes len: "length frame = FRAME_LEN" and g: "g \<in> {0, 1, 2, 3}"
  shows "decode (coeffs_of g) frame =
     Some (real (\<Sum>i<11. unat (frame ! (3 + i)) * 256 ^ (10 - i)) / fst (calculate_coeffs g),
           real (\<Sum>i<11. unat (frame ! (14 + i)) * 256 ^ (10 - i)) / fst (calculate_coeffs g),
           real (\<Sum>i<7. unat (frame ! (25 + i)) * 256 ^ (6 - i)) / snd (calculate_coeffs g),
           real (\<Sum>i<7. unat (frame ! (32 + i)) * 256 ^ (6 - i)) / snd (calculate_coeffs g))"
proof -
  from len have l: "length frame = 40" by (simp add: FRAME_LEN_def)
  have f1: "from_bytes_big (py_slice 3 14 frame) = (\<Sum>i<11. unat (frame ! (3 + i)) * 256 ^ (10 - i))"
    using field_sum [of 14 frame 3] l by simp
  have f2: "from_bytes_big (py_slice 14 25 frame) = (\<Sum>i<11. unat (frame ! (14 + i)) * 256 ^ (10 - i))"
    using field_sum [of 25 frame 14] l by simp
  have f3: "from_bytes_big (py_slice 25 32 frame) = (\<Sum>i<7. unat (frame ! (25 + i)) * 256 ^ (6 - i))"
    using field_sum [of 32 frame 25] l by simp
  have f4: "from_bytes_big (py_slice 32 39 frame) = (\<Sum>i<7. unat (frame ! (32 + i)) * 256 ^ (6 - i))"
    using field_sum [of 39 frame 32] l by simp
  from calculate_coeffs_positive [OF g]
  have nz: "fst (calculate_coeffs g) \<noteq> 0" "snd (calculate_coeffs g) \<noteq> 0" by simp_all
  show ?thesis
    unfolding decode_def coeffs_of_tuple f1 f2 f3 f4 using nz by (simp add: Let_def)
qed

text \<open>
  Claim C2. A frame of \<open>FRAME_LEN\<close> bytes that starts with \<open>0xAA\<close>, alone in the buffer,
  is emitted once, with the sample of the four big-endian unsigned numbers in the bytes
  3 to 13, 14 to 24, 25 to 31 and 32 to 38, the first two divided by \<open>nf\<close> and the last two
  by \<open>na\<close> of the gain index in force. The frame of the end-to-end example decodes to
  \<open>(1 / nf, 0, 0, 0)\<close> for \<open>g = 0\<close>, where \<open>nf = 21 * 2 ^ 51 / 125\<close> and \<open>na = 2 ^ 24\<close>.
  Division is exact division on \<open>real\<close>, so the sample is equal to, not only close to,
  that value.
\<close>
theorem decode_frame_fields:
  "(length frame = FRAME_LEN \<and> frame ! 0 = 0xAA \<and> g \<in> {0, 1, 2, 3} \<longrightarrow>
      (let nf = fst (calculate_coeffs g);
           na = snd (calculate_coeffs g);
           sample =
             (real (\<Sum>i<11. unat (frame ! (3 + i)) * 256 ^ (10 - i)) / nf,
              real (\<Sum>i<11. unat (frame ! (14 + i)) * 256 ^ (10 - i)) / nf,
              real (\<Sum>i<7. unat (frame ! (25 + i)) * 256 ^ (6 - i)) / na,
              real (\<Sum>i<7. unat (frame ! (32 + i)) * 256 ^ (6 - i)) / na)
       in decode (coeffs_of g) frame = Some sample \<and>
          run_iter (coeffs_of g) [] frame = ([(sample, frame)], []))) \<and>
   decode (coeffs_of 0) (example_frame t) = Some (1 / (21 * 2 ^ 51 / 125), 0, 0, 0) \<and>
   run_iter (coeffs_of 0) [] (example_frame t) =
     ([((1 / (21 * 2 ^ 51 / 125), 0, 0, 0), example_frame t)], []) \<and>
   coeffs_of 0 = (21 * 2 ^ 51 / 125, 21 * 2 ^ 51 / 125, 2 ^ 24, 2 ^ 24)"
proof -
  have general: "length frame = FRAME_LEN \<and> frame ! 0 = 0xAA \<and> g \<in> {0, 1, 2, 3} \<longrightarrow>
      (let nf = fst (calculate_coeffs g);
           na = snd (calculate_coeffs g);
           sample =
             (real (\<Sum>i<11. unat (frame ! (3 + i)) * 256 ^ (10 - i)) / nf,
              real (\<Sum>i<11. unat (frame ! (14 + i)) * 256 ^ (10 - i)) / nf,
              real (\<Sum>i<7. unat (frame ! (25 + i)) * 256 ^ (6 - i)) / na,
              real (\<Sum>i<7. unat (frame ! (32 + i)) * 256 ^ (6 - i)) / na)
       in decode (coeffs_of g) frame = Some sample \<and>
          run_iter (coeffs_of g) [] frame = ([(sample, frame)], []))"
  proof
    assume h: "length frame = FRAME_LEN \<and> frame ! 0 = 0xAA \<and> g \<in> {0, 1, 2, 3}"
    then have len: "length frame = FRAME_LEN" and hd: "frame ! 0 = 0xAA"
      and g: "g \<in> {0, 1, 2, 3}" by blast+
    note d = decode_fields [OF len g]
    have ne: "frame \<noteq> []" using len by (auto simp: FRAME_LEN_def)
    have "sync_loop (coeffs_of g) (frame @ []) =
        ((the (decode (coeffs_of g) frame), frame) # fst (sync_loop (coeffs_of g) []),
         snd (sync_loop (coeffs_of g) []))"
      using len hd by (rule sync_loop_frame) (simp add: d)
    then have "run_iter (coeffs_of g) [] frame = ([(the (decode (coeffs_of g) frame), frame)], [])"
      using ne by (simp add: run_iter_def sync_loop_Nil)
    with d show "let nf = fst (calculate_coeffs g);
           na = snd (calculate_coeffs g);
           sample =
             (real (\<Sum>i<11. unat (frame ! (3 + i)) * 256 ^ (10 - i)) / nf,
              real (\<Sum>i<11. unat (frame ! (14 + i)) * 256 ^ (10 - i)) / nf,
              real (\<Sum>i<7. unat (frame ! (25 + i)) * 256 ^ (6 - i)) / na,
              real (\<Sum>i<7. unat (frame ! (32 + i)) * 256 ^ (6 - i)) / na)
       in decode (coeffs_of g) frame = Some sample \<and>
          run_iter (coeffs_of g) [] frame = ([(sample, frame)], [])"
      by (simp add: Let_def)
  qed
  have run: "run_iter (coeffs_of 0) [] (example_frame t) =
     ([((1 / (21 * 2 ^ 51 / 125), 0, 0, 0), example_frame t)], [])"
    by (simp add: run_iter_def example_frame_not_Nil example_frame_alone)
  have c0: "coeffs_of 0 = (21 * 2 ^ 51 / 125, 21 * 2 ^ 51 / 125, 2 ^ 24, 2 ^ 24)"
    by (simp add: coeffs_of_def calculate_coeffs_def pow2_def)
  from general example_frame_decode [of t] run c0 show ?thesis by blast
qed

theorem decode_frame_fields_witness:
  "length (example_frame 0x5C) = FRAME_LEN \<and> example_frame 0x5C ! 0 = 0xAA \<and>
   (0 :: int) \<in> {0, 1, 2, 3} \<and>
   decode (coeffs_of 0) (example_frame 0x5C) =
     Some (real (\<Sum>i<11. unat (example_frame 0x5C ! (3 + i)) * 256 ^ (10 - i))
             / fst (calculate_coeffs 0),
           real (\<Sum>i<11. unat (example_frame 0x5C ! (14 + i)) * 256 ^ (10 - i))
             / fst (calculate_coeffs 0),
           real (\<Sum>i<7. unat (example_frame 0x5C ! (25 + i)) * 256 ^ (6 - i))
             / snd (calculate_coeffs 0),
           real (\<Sum>i<7. unat (example_frame 0x5C ! (32 + i)) * 256 ^ (6 - i))
             / snd (calculate_coeffs 0)) \<and>
   run_iter (coeffs_of 0) [] (example_frame 0x5C) =
     ([((1 / (21 * 2 ^ 51 / 125), 0, 0, 0), example_frame 0x5C)], [])"
proof -
  have h: "length (example_frame 0x5C) = FRAME_LEN \<and> example_frame 0x5C ! 0 = 0xAA \<and>
      (0 :: int) \<in> {0, 1, 2, 3}"
    by (simp add: example_frame_length example_frame_sentinel)
  note inst = decode_frame_fields [of "example_frame 0x5C" 0 "0x5C"]
  have d: "decode (coeffs_of 0) (example_frame 0x5C) =
     Some (real (\<Sum>i<11. unat (example_frame 0x5C ! (3 + i)) * 256 ^ (10 - i))
             / fst (calculate_coeffs 0),
           real (\<Sum>i<11. unat (example_frame 0x5C ! (14 + i)) * 256 ^ (10 - i))
             / fst (calculate_coeffs 0),
           real (\<Sum>i<7. unat (example_frame 0x5C ! (25 + i)) * 256 ^ (6 - i))
             / snd (calculate_coeffs 0),
           real (\<Sum>i<7. unat (example_frame 0x5C ! (32 + i)) * 256 ^ (6 - i))
             / snd (calculate_coeffs 0))"
    using inst h unfolding Let_def by blast
  have r: "run_iter (coeffs_of 0) [] (example_frame 0x5C) =
     ([((1 / (21 * 2 ^ 51 / 125), 0, 0, 0), example_frame 0x5C)], [])"
    using inst by blast
  from h d r show ?thesis by blast
qed

section \<open>The configuration packet\<close>

lemma char_of_nat_eq: "char_of (n :: nat) = c \<longleftrightarrow> n mod 256 = of_char c"
  by (simp add: char_of_eq_iff take_bit_eq_mod)

lemma send_structure_items:
  "send_structure =
     [LineEdit 0, Fixed 0x24, LineEdit 2, Fixed 0x25, LineEdit 4, Fixed 0x26, LineEdit 6,
      Fixed 0x27, LineEdit 8, Fixed 0x28, LineEdit 10, Fixed 0x29, LineEdit 12, Fixed 0x2A,
      LineEdit 14, Fixed 0x2B, LineEdit 16, Fixed 0x2C, LineEdit 18, Fixed 0x2D, LineEdit 20,
      Fixed 0x2E, LineEdit 22, LineEdit 23, LineEdit 24]"
  by (simp add: send_structure_def fixed_vals_def upt_rec)

lemmas int16_eval =
  py_int16_def int_argument_def parse_int16_def int_strip_def int_isspace_def digit_value_def
  py_isspace_def py_decimal_def ustr_def char_of_nat_eq

lemma field_value_00: "field_value db (ustr ''00'') = Inr 0"
  by (simp add: field_value_def py_strip_def int16_eval)


lemma build_packet_all_00:
  "build_packet db (\<lambda>i. ustr ''00'') send_structure [] =
   Inr [0x00, 0x24, 0x00, 0x25, 0x00, 0x26, 0x00, 0x27, 0x00, 0x28, 0x00, 0x29, 0x00, 0x2A,
        0x00, 0x2B, 0x00, 0x2C, 0x00, 0x2D, 0x00, 0x2E, 0x00, 0x00, 0x00]"
  by (simp add: send_structure_items field_value_00)


lemma build_packet_Inr:
  "build_packet db texts items packet = Inr p \<Longrightarrow>
   length p = length packet + length items \<and>
   take (length packet) p = packet \<and>
   (\<forall>k<length items. item_byte db texts (items ! k) = Inr (p ! (length packet + k)))"
proof (induction items arbitrary: packet)
  case Nil
  then show ?case by simp
next
  case (Cons a items)
  from Cons.prems obtain b where b: "item_byte db texts a = Inr b"
    and rest: "build_packet db texts items (packet @ [b]) = Inr p"
    by (auto split: sum.splits)
  from Cons.IH [OF rest]
  have len: "length p = length (packet @ [b]) + length items"
    and pre: "take (length (packet @ [b])) p = packet @ [b]"
    and nth: "\<forall>k<length items.
        item_byte db texts (items ! k) = Inr (p ! (length (packet @ [b]) + k))"
    by blast+
  have "take (length packet) (take (length (packet @ [b])) p) = take (length packet) (packet @ [b])"
    by (simp only: pre)
  then have pre': "take (length packet) p = packet"
    by simp
  have "take (length (packet @ [b])) p ! length packet = (packet @ [b]) ! length packet"
    by (simp only: pre)
  then have at: "p ! length packet = b"
    by simp
  have "\<forall>k<length (a # items).
      item_byte db texts ((a # items) ! k) = Inr (p ! (length packet + k))"
  proof (intro allI impI)
    fix k assume k: "k < length (a # items)"
    show "item_byte db texts ((a # items) ! k) = Inr (p ! (length packet + k))"
    proof (cases k)
      case 0
      with b at show ?thesis by simp
    next
      case (Suc j)
      with k nth show ?thesis by simp
    qed
  qed
  with len pre' show ?case by simp
qed

lemma fixed_vals_range: "fixed_vals k = Some v \<Longrightarrow> 0 \<le> v \<and> v \<le> 255"
  by (simp add: fixed_vals_def split: if_splits)

lemma send_structure_nth:
  "k < 25 \<Longrightarrow>
   send_structure ! k = (case fixed_vals k of Some val \<Rightarrow> Fixed val | None \<Rightarrow> LineEdit k)"
  by (cases "fixed_vals k") (simp_all add: send_structure_def)

lemma send_structure_length: "length send_structure = 25"
  by (simp add: send_structure_def)

lemma build_packet_layout:
  assumes "build_packet db texts send_structure [] = Inr p"
  shows "length p = 25"
    and "k < 25 \<Longrightarrow> fixed_vals k = Some v \<Longrightarrow> p ! k = word_of_int v"
    and "k < 25 \<Longrightarrow> fixed_vals k = None \<Longrightarrow> field_value db (texts k) = Inr (p ! k)"
proof -
  from build_packet_Inr [OF assms]
  have len: "length p = 25"
    and nth: "\<forall>k<25. item_byte db texts (send_structure ! k) = Inr (p ! k)"
    by (simp_all add: send_structure_length)
  show "length p = 25" by (rule len)
  show "p ! k = word_of_int v" if "k < 25" "fixed_vals k = Some v"
    using nth that fixed_vals_range [OF that(2)] by (auto simp: send_structure_nth)
  show "field_value db (texts k) = Inr (p ! k)" if "k < 25" "fixed_vals k = None"
    using nth that by (auto simp: send_structure_nth)
qed

subsection \<open>What the parser of \<open>int\<close> accepts\<close>


















lemma connected_window_thread:
  "is_running (thread connected_window) \<and> port_is_open (thread connected_window) \<and>
   \<not> port_write_raises (thread connected_window) \<and> port_written (thread connected_window) = []"
  by (simp add: connected_window_def update_coeff_only_def update_frequency_gain_def
      init_window_def init_thread_def Let_def)

lemma connected_window_text: "line_text connected_window = (\<lambda>i. ustr ''00'')"
  by (simp add: connected_window_def update_coeff_only_def update_frequency_gain_def
      init_window_def Let_def)

lemma construct_and_send_sent:
  assumes "is_running (thread w)" "port_is_open (thread w)" "\<not> port_write_raises (thread w)"
    and "build_packet db (line_text w) send_structure [] = Inr packet"
  shows "port_written (thread (construct_and_send db w)) = port_written (thread w) @ [packet]"
  using assms
  by (simp add: construct_and_send_def send_data_def update_coeff_only_def
      update_frequency_gain_def Let_def)



text \<open>
  Claim C4, as the code has it. With \<open>00\<close> in every line edit the packet is
  \<open>00 24 00 25 00 26 00 27 00 28 00 29 00 2A 00 2B 00 2C 00 2D 00 2E 00 00 00\<close>, and this is
  what a connected window writes to the port. Whatever the line edits hold, a packet that
  is built has 25 bytes, the bytes \<open>0x24\<close> to \<open>0x2E\<close> at the positions 1, 3, ..., 21 (counted
  from 0) and the byte of the line edit at every other position.
\<close>
theorem config_packet_layout:
  "build_packet db (\<lambda>i. ustr ''00'') send_structure [] =
     Inr [0x00, 0x24, 0x00, 0x25, 0x00, 0x26, 0x00, 0x27, 0x00, 0x28, 0x00, 0x29, 0x00, 0x2A,
          0x00, 0x2B, 0x00, 0x2C, 0x00, 0x2D, 0x00, 0x2E, 0x00, 0x00, 0x00] \<and>
   port_written (thread (construct_and_send db connected_window)) =
     [[0x00, 0x24, 0x00, 0x25, 0x00, 0x26, 0x00, 0x27, 0x00, 0x28, 0x00, 0x29, 0x00, 0x2A,
       0x00, 0x2B, 0x00, 0x2C, 0x00, 0x2D, 0x00, 0x2E, 0x00, 0x00, 0x00]] \<and>
   (build_packet db texts send_structure [] = Inr p \<longrightarrow>
      length p = 25 \<and>
      p ! 1 = 0x24 \<and> p ! 3 = 0x25 \<and> p ! 5 = 0x26 \<and> p ! 7 = 0x27 \<and> p ! 9 = 0x28 \<and>
      p ! 11 = 0x29 \<and> p ! 13 = 0x2A \<and> p ! 15 = 0x2B \<and> p ! 17 = 0x2C \<and> p ! 19 = 0x2D \<and>
      p ! 21 = 0x2E \<and>
      (\<forall>i \<in> {0, 2, 4, 6, 8, 10, 12, 14, 16, 18, 20, 22, 23, 24}.
         field_value db (texts i) = Inr (p ! i)))"
proof -
  have sent: "port_written (thread (construct_and_send db connected_window)) =
     [[0x00, 0x24, 0x00, 0x25, 0x00, 0x26, 0x00, 0x27, 0x00, 0x28, 0x00, 0x29, 0x00, 0x2A,
       0x00, 0x2B, 0x00, 0x2C, 0x00, 0x2D, 0x00, 0x2E, 0x00, 0x00, 0x00]]"
    using construct_and_send_sent [of connected_window, OF _ _ _ build_packet_all_00 [folded connected_window_text]]
      connected_window_thread
    by simp
  have layout: "build_packet db texts send_structure [] = Inr p \<longrightarrow>
      length p = 25 \<and>
      p ! 1 = 0x24 \<and> p ! 3 = 0x25 \<and> p ! 5 = 0x26 \<and> p ! 7 = 0x27 \<and> p ! 9 = 0x28 \<and>
      p ! 11 = 0x29 \<and> p ! 13 = 0x2A \<and> p ! 15 = 0x2B \<and> p ! 17 = 0x2C \<and> p ! 19 = 0x2D \<and>
      p ! 21 = 0x2E \<and>
      (\<forall>i \<in> {0, 2, 4, 6, 8, 10, 12, 14, 16, 18, 20, 22, 23, 24}.
         field_value db (texts i) = Inr (p ! i))"
  proof
    assume built: "build_packet db texts send_structure [] = Inr p"
    note fixed = build_packet_layout(2) [OF built]
    note user = build_packet_layout(3) [OF built]
    have f: "p ! 1 = 0x24" "p ! 3 = 0x25" "p ! 5 = 0x26" "p ! 7 = 0x27" "p ! 9 = 0x28"
      "p ! 11 = 0x29" "p ! 13 = 0x2A" "p ! 15 = 0x2B" "p ! 17 = 0x2C" "p ! 19 = 0x2D"
      "p ! 21 = 0x2E"
      using fixed [of 1 "0x24"] fixed [of 3 "0x25"] fixed [of 5 "0x26"] fixed [of 7 "0x27"]
        fixed [of 9 "0x28"] fixed [of 11 "0x29"] fixed [of 13 "0x2A"] fixed [of 15 "0x2B"]
        fixed [of 17 "0x2C"] fixed [of 19 "0x2D"] fixed [of 21 "0x2E"]
      by (simp_all add: fixed_vals_def)
    have u: "\<forall>i \<in> {0, 2, 4, 6, 8, 10, 12, 14, 16, 18, 20, 22, 23, 24}.
         field_value db (texts i) = Inr (p ! i)"
      using user [of 0] user [of 2] user [of 4] user [of 6] user [of 8] user [of 10]
        user [of 12] user [of 14] user [of 16] user [of 18] user [of 20] user [of 22]
        user [of 23] user [of 24]
      by (simp add: fixed_vals_def)
    from build_packet_layout(1) [OF built] f u
    show "length p = 25 \<and>
      p ! 1 = 0x24 \<and> p ! 3 = 0x25 \<and> p ! 5 = 0x26 \<and> p ! 7 = 0x27 \<and> p ! 9 = 0x28 \<and>
      p ! 11 = 0x29 \<and> p ! 13 = 0x2A \<and> p ! 15 = 0x2B \<and> p ! 17 = 0x2C \<and> p ! 19 = 0x2D \<and>
      p ! 21 = 0x2E \<and>
      (\<forall>i \<in> {0, 2, 4, 6, 8, 10, 12, 14, 16, 18, 20, 22, 23, 24}.
         field_value db (texts i) = Inr (p ! i))"
      by blast
  qed
  from build_packet_all_00 sent layout show ?thesis by blast
qed

theorem config_packet_layout_witness:
  "build_packet sample_db (\<lambda>i. ustr ''00'') send_structure [] =
     Inr [0x00, 0x24, 0x00, 0x25, 0x00, 0x26, 0x00, 0x27, 0x00, 0x28, 0x00, 0x29, 0x00, 0x2A,
          0x00, 0x2B, 0x00, 0x2C, 0x00, 0x2D, 0x00, 0x2E, 0x00, 0x00, 0x00] \<and>
   length [0x00, 0x24, 0x00, 0x25, 0x00, 0x26, 0x00, 0x27, 0x00, 0x28, 0x00, 0x29, 0x00, 0x2A,
           0x00, 0x2B, 0x00, 0x2C, 0x00, 0x2D, 0x00, 0x2E, 0x00, 0x00, 0x00 :: byte] = 25 \<and>
   (0 :: nat) \<in> {0, 2, 4, 6, 8, 10, 12, 14, 16, 18, 20, 22, 23, 24} \<and>
   field_value sample_db (ustr ''00'') = Inr (0 :: byte)"
  using config_packet_layout [of sample_db "\<lambda>i. ustr ''00''"
      "[0x00, 0x24, 0x00, 0x25, 0x00, 0x26, 0x00, 0x27, 0x00, 0x28, 0x00, 0x29, 0x00, 0x2A,
        0x00, 0x2B, 0x00, 0x2C, 0x00, 0x2D, 0x00, 0x2E, 0x00, 0x00, 0x00]"]
  by simp

text \<open>
  Claim C4 as stated fails: the packet for \<open>00\<close> in every line edit is not the listed
  sequence \<open>24 00 25 00 ... 2E 00 00\<close> followed by two padding bytes; its byte 0 is the
  byte of the first line edit, not \<open>0x24\<close>.
\<close>
theorem config_packet_not_as_listed:
  "build_packet sample_db (\<lambda>i. ustr ''00'') send_structure [] \<noteq>
     Inr ([0x24, 0x00, 0x25, 0x00, 0x26, 0x00, 0x27, 0x00, 0x28, 0x00, 0x29, 0x00, 0x2A, 0x00,
           0x2B, 0x00, 0x2C, 0x00, 0x2D, 0x00, 0x2E, 0x00, 0x00] @ [0x00, 0x00])"
  by (simp add: build_packet_all_00)

subsection \<open>Malformed input\<close>










section \<open>The plot timer\<close>

lemma pushes: "foldl on_data_received w evs = w\<lparr>temp_buffer := temp_buffer w @ evs\<rparr>"
  by (induction evs arbitrary: w) (simp_all add: on_data_received_def)

lemma deque_extend_Nil: "deque_extend n d [] = d"
  by (simp add: deque_extend_def)

lemma deque_extend_append:
  "deque_extend n d (xs @ ys) = deque_extend n (deque_extend n d xs) ys"
  by (simp add: deque_extend_def)

lemma update_plot_idle: "temp_buffer w = [] \<Longrightarrow> update_plot w = w"
  by (simp add: update_plot_def)

lemmas update_plot_unfold = update_plot_def drain_all_def stop_save_def Let_def

lemma update_plot_temp_buffer: "temp_buffer (update_plot w) = []"
  by (simp add: update_plot_unfold split: option.splits sum.splits)

lemma update_plot_data:
  "data_ch1 (update_plot w) =
     deque_extend plot_len (data_ch1 w) (map col0 (map fst (temp_buffer w)))"
  "data_ch2 (update_plot w) =
     deque_extend plot_len (data_ch2 w) (map col1 (map fst (temp_buffer w)))"
  "data_ch3 (update_plot w) =
     deque_extend plot_len (data_ch3 w) (map col2 (map fst (temp_buffer w)))"
  "data_ch4 (update_plot w) =
     deque_extend plot_len (data_ch4 w) (map col3 (map fst (temp_buffer w)))"
  by (simp_all add: update_plot_unfold deque_extend_Nil split: option.splits sum.splits)

lemma update_plot_curves:
  "temp_buffer w \<noteq> [] \<Longrightarrow>
   curve1 (update_plot w) = data_ch1 (update_plot w) \<and>
   curve2 (update_plot w) = data_ch2 (update_plot w) \<and>
   curve3 (update_plot w) = data_ch3 (update_plot w) \<and>
   curve4 (update_plot w) = data_ch4 (update_plot w)"
  by (simp add: update_plot_unfold split: option.splits sum.splits)

lemma update_plot_display:
  "temp_buffer w \<noteq> [] \<Longrightarrow>
   txt_raw_display (update_plot w) =
     join [CHR 0x0A] (map hex_str (last_n 5 (map snd (temp_buffer w))))"
  by (simp add: update_plot_unfold split: option.splits sum.splits)

lemma update_plot_no_file:
  "save_file w = None \<Longrightarrow>
   save_file (update_plot w) = None \<and> is_saving (update_plot w) = is_saving w \<and>
   stdout (update_plot w) = stdout w"
  by (simp add: update_plot_unfold split: option.splits sum.splits)

lemma update_plot_write_fails:
  "temp_buffer w \<noteq> [] \<Longrightarrow> is_saving w \<Longrightarrow> save_file w = Some f \<Longrightarrow>
   write_rows f (map fst (temp_buffer w)) = Inl f' \<Longrightarrow>
   save_file (update_plot w) = None \<and> \<not> is_saving (update_plot w) \<and>
   stdout (update_plot w) = stdout w @ [Write_file_failed_msg]"
  by (simp add: update_plot_unfold)

lemma update_plot_write_ok:
  "temp_buffer w \<noteq> [] \<Longrightarrow> is_saving w \<Longrightarrow> save_file w = Some f \<Longrightarrow>
   write_rows f (map fst (temp_buffer w)) = Inr f' \<Longrightarrow>
   save_file (update_plot w) = Some f' \<and> is_saving (update_plot w) \<and>
   stdout (update_plot w) = stdout w"
  by (simp add: update_plot_unfold)

lemma write_rows_fails:
  "writes_left f = Some n \<Longrightarrow> n < length rows \<Longrightarrow>
   \<exists>f'. write_rows f rows = Inl f' \<and> written f' = written f @ map Row (take n rows)"
proof (induction rows arbitrary: f n)
  case Nil
  then show ?case by simp
next
  case (Cons r rows)
  show ?case
  proof (cases n)
    case 0
    with Cons.prems show ?thesis by (simp add: file_write_def)
  next
    case (Suc m)
    let ?g = "f\<lparr>written := written f @ [Row r], writes_left := Some m\<rparr>"
    have w: "file_write f (Row r) = Some ?g"
      using Cons.prems Suc by (simp add: file_write_def)
    have "writes_left ?g = Some m" "m < length rows"
      using Cons.prems Suc by simp_all
    from Cons.IH [OF this] w Suc show ?thesis by simp
  qed
qed

lemma write_rows_ok:
  "(case writes_left f of None \<Rightarrow> True | Some n \<Rightarrow> length rows \<le> n) \<Longrightarrow>
   \<exists>f'. write_rows f rows = Inr f' \<and> written f' = written f @ map Row rows"
proof (induction rows arbitrary: f)
  case Nil
  then show ?case by simp
next
  case (Cons r rows)
  show ?case
  proof (cases "writes_left f")
    case None
    let ?g = "f\<lparr>written := written f @ [Row r]\<rparr>"
    have w: "file_write f (Row r) = Some ?g"
      using None by (simp add: file_write_def)
    have "case writes_left ?g of None \<Rightarrow> True | Some n \<Rightarrow> length rows \<le> n"
      using None by simp
    from Cons.IH [OF this] w show ?thesis by simp
  next
    case (Some n)
    with Cons.prems obtain m where m: "n = Suc m" "length rows \<le> m"
      by (cases n) auto
    let ?g = "f\<lparr>written := written f @ [Row r], writes_left := Some m\<rparr>"
    have w: "file_write f (Row r) = Some ?g"
      using Some m by (simp add: file_write_def)
    have "case writes_left ?g of None \<Rightarrow> True | Some n \<Rightarrow> length rows \<le> n"
      using m by simp
    from Cons.IH [OF this] w show ?thesis by simp
  qed
qed

lemma tick_after_unfold: "tick_after w evs = update_plot (w\<lparr>temp_buffer := temp_buffer w @ evs\<rparr>)"
  by (simp add: tick_after_def pushes)

lemma last_deque_append: "0 < n \<Longrightarrow> last (deque_append n d x) = x"
  by (simp add: deque_append_def)

lemma last_deque_extend: "0 < n \<Longrightarrow> xs \<noteq> [] \<Longrightarrow> last (deque_extend n d xs) = last xs"
proof (induction xs arbitrary: d rule: rev_induct)
  case Nil
  then show ?case by simp
next
  case (snoc x xs)
  then show ?case by (simp add: deque_extend_def last_deque_append)
qed

lemma ticks_without_file:
  "save_file w = None \<Longrightarrow> temp_buffer w = [] \<Longrightarrow>
   save_file (foldl tick_after w batches) = None \<and>
   is_saving (foldl tick_after w batches) = is_saving w \<and>
   stdout (foldl tick_after w batches) = stdout w \<and>
   temp_buffer (foldl tick_after w batches) = [] \<and>
   data_ch1 (foldl tick_after w batches) =
     deque_extend plot_len (data_ch1 w) (map col0 (map fst (concat batches))) \<and>
   data_ch2 (foldl tick_after w batches) =
     deque_extend plot_len (data_ch2 w) (map col1 (map fst (concat batches))) \<and>
   data_ch3 (foldl tick_after w batches) =
     deque_extend plot_len (data_ch3 w) (map col2 (map fst (concat batches))) \<and>
   data_ch4 (foldl tick_after w batches) =
     deque_extend plot_len (data_ch4 w) (map col3 (map fst (concat batches)))"
proof (induction batches arbitrary: w)
  case Nil
  then show ?case by (simp add: deque_extend_Nil)
next
  case (Cons b batches)
  let ?v = "w\<lparr>temp_buffer := temp_buffer w @ b\<rparr>"
  let ?w1 = "tick_after w b"
  have w1: "?w1 = update_plot ?v" by (rule tick_after_unfold)
  have nf: "save_file ?v = None" using Cons.prems by simp
  have tb: "temp_buffer ?v = b" using Cons.prems by simp
  have a: "save_file ?w1 = None" "is_saving ?w1 = is_saving w" "stdout ?w1 = stdout w"
    using update_plot_no_file [OF nf] by (simp_all add: w1)
  have b: "temp_buffer ?w1 = []"
    by (simp add: w1 update_plot_temp_buffer)
  have d: "data_ch1 ?w1 = deque_extend plot_len (data_ch1 w) (map col0 (map fst b))"
    "data_ch2 ?w1 = deque_extend plot_len (data_ch2 w) (map col1 (map fst b))"
    "data_ch3 ?w1 = deque_extend plot_len (data_ch3 w) (map col2 (map fst b))"
    "data_ch4 ?w1 = deque_extend plot_len (data_ch4 w) (map col3 (map fst b))"
    using tb by (simp_all add: w1 update_plot_data)
  from Cons.IH [OF a(1) b] a b d show ?case
    by (simp add: deque_extend_append)
qed

lemma update_plot_last:
  "temp_buffer w \<noteq> [] \<Longrightarrow>
   last (data_ch1 (update_plot w)) = col0 (fst (last (temp_buffer w))) \<and>
   last (data_ch2 (update_plot w)) = col1 (fst (last (temp_buffer w))) \<and>
   last (data_ch3 (update_plot w)) = col2 (fst (last (temp_buffer w))) \<and>
   last (data_ch4 (update_plot w)) = col3 (fst (last (temp_buffer w)))"
  by (simp add: update_plot_data last_deque_extend last_map plot_len_def)

lemma tick_after_visible:
  assumes "batch \<noteq> []"
  shows "curve1 (tick_after w batch) = data_ch1 (tick_after w batch) \<and>
     curve2 (tick_after w batch) = data_ch2 (tick_after w batch) \<and>
     curve3 (tick_after w batch) = data_ch3 (tick_after w batch) \<and>
     curve4 (tick_after w batch) = data_ch4 (tick_after w batch) \<and>
     last (data_ch1 (tick_after w batch)) = col0 (fst (last batch)) \<and>
     last (data_ch2 (tick_after w batch)) = col1 (fst (last batch)) \<and>
     last (data_ch3 (tick_after w batch)) = col2 (fst (last batch)) \<and>
     last (data_ch4 (tick_after w batch)) = col3 (fst (last batch))"
proof -
  let ?v = "w\<lparr>temp_buffer := temp_buffer w @ batch\<rparr>"
  have ne: "temp_buffer ?v \<noteq> []" using assms by simp
  have l: "last (temp_buffer ?v) = last batch" using assms by simp
  from update_plot_curves [OF ne] update_plot_last [OF ne] l
  show ?thesis unfolding tick_after_unfold by simp
qed

subsection \<open>Draining the pending events\<close>

text \<open>
  Claim C6. After a drain the pending list is empty; events pushed onto an empty list with
  no drain in between are all returned by the next drain, in the order they were pushed,
  and the tick that drains them feeds exactly these to the four ring buffers and leaves
  the list empty; a drain right after returns nothing. A tick that finds nothing pending
  returns the window as it is: no buffer, curve, display or file changes.
\<close>
theorem drain_after_pushes:
  "fst (drain_all (foldl on_data_received w evs)) = temp_buffer w @ evs \<and>
   temp_buffer (snd (drain_all w)) = [] \<and>
   (temp_buffer w = [] \<longrightarrow>
      fst (drain_all (foldl on_data_received w evs)) = evs \<and>
      fst (drain_all (snd (drain_all (foldl on_data_received w evs)))) = [] \<and>
      data_ch1 (tick_after w evs) = deque_extend plot_len (data_ch1 w) (map col0 (map fst evs)) \<and>
      data_ch2 (tick_after w evs) = deque_extend plot_len (data_ch2 w) (map col1 (map fst evs)) \<and>
      data_ch3 (tick_after w evs) = deque_extend plot_len (data_ch3 w) (map col2 (map fst evs)) \<and>
      data_ch4 (tick_after w evs) = deque_extend plot_len (data_ch4 w) (map col3 (map fst evs)) \<and>
      temp_buffer (tick_after w evs) = [] \<and>
      fst (drain_all (tick_after w evs)) = [] \<and>
      update_plot (tick_after w evs) = tick_after w evs \<and>
      update_plot w = w)"
proof -
  have a: "fst (drain_all (foldl on_data_received w evs)) = temp_buffer w @ evs"
    by (simp add: drain_all_def pushes)
  have b: "temp_buffer (snd (drain_all w)) = []"
    by (simp add: drain_all_def)
  have c: "temp_buffer w = [] \<longrightarrow>
      fst (drain_all (foldl on_data_received w evs)) = evs \<and>
      fst (drain_all (snd (drain_all (foldl on_data_received w evs)))) = [] \<and>
      data_ch1 (tick_after w evs) = deque_extend plot_len (data_ch1 w) (map col0 (map fst evs)) \<and>
      data_ch2 (tick_after w evs) = deque_extend plot_len (data_ch2 w) (map col1 (map fst evs)) \<and>
      data_ch3 (tick_after w evs) = deque_extend plot_len (data_ch3 w) (map col2 (map fst evs)) \<and>
      data_ch4 (tick_after w evs) = deque_extend plot_len (data_ch4 w) (map col3 (map fst evs)) \<and>
      temp_buffer (tick_after w evs) = [] \<and>
      fst (drain_all (tick_after w evs)) = [] \<and>
      update_plot (tick_after w evs) = tick_after w evs \<and>
      update_plot w = w"
  proof
    assume empty: "temp_buffer w = []"
    have tick: "temp_buffer (tick_after w evs) = []"
      by (simp add: tick_after_unfold update_plot_temp_buffer)
    have again: "update_plot (tick_after w evs) = tick_after w evs"
      using tick by (rule update_plot_idle)
    have idle: "update_plot w = w"
      using empty by (rule update_plot_idle)
    have data: "data_ch1 (tick_after w evs) =
        deque_extend plot_len (data_ch1 w) (map col0 (map fst evs))"
      "data_ch2 (tick_after w evs) =
        deque_extend plot_len (data_ch2 w) (map col1 (map fst evs))"
      "data_ch3 (tick_after w evs) =
        deque_extend plot_len (data_ch3 w) (map col2 (map fst evs))"
      "data_ch4 (tick_after w evs) =
        deque_extend plot_len (data_ch4 w) (map col3 (map fst evs))"
      using empty by (simp_all add: tick_after_unfold update_plot_data)
    have first: "fst (drain_all (foldl on_data_received w evs)) = evs"
      using a empty by simp
    have second: "fst (drain_all (snd (drain_all (foldl on_data_received w evs)))) = []"
      by (simp add: drain_all_def)
    have third: "fst (drain_all (tick_after w evs)) = []"
      using tick by (simp add: drain_all_def)
    from first second data tick third again idle
    show "fst (drain_all (foldl on_data_received w evs)) = evs \<and>
      fst (drain_all (snd (drain_all (foldl on_data_received w evs)))) = [] \<and>
      data_ch1 (tick_after w evs) = deque_extend plot_len (data_ch1 w) (map col0 (map fst evs)) \<and>
      data_ch2 (tick_after w evs) = deque_extend plot_len (data_ch2 w) (map col1 (map fst evs)) \<and>
      data_ch3 (tick_after w evs) = deque_extend plot_len (data_ch3 w) (map col2 (map fst evs)) \<and>
      data_ch4 (tick_after w evs) = deque_extend plot_len (data_ch4 w) (map col3 (map fst evs)) \<and>
      temp_buffer (tick_after w evs) = [] \<and>
      fst (drain_all (tick_after w evs)) = [] \<and>
      update_plot (tick_after w evs) = tick_after w evs \<and>
      update_plot w = w"
      by blast
  qed
  from a b c show ?thesis by blast
qed

theorem drain_after_pushes_witness:
  "temp_buffer init_window = [] \<and>
   fst (drain_all (foldl on_data_received init_window [example_event 1, example_event 2])) =
     [example_event 1, example_event 2] \<and>
   fst (drain_all (tick_after init_window [example_event 1, example_event 2])) = [] \<and>
   update_plot (tick_after init_window [example_event 1, example_event 2]) =
     tick_after init_window [example_event 1, example_event 2] \<and>
   update_plot init_window = init_window"
proof -
  have empty: "temp_buffer init_window = []"
    by (simp add: init_window_def)
  from drain_after_pushes [of init_window "[example_event 1, example_event 2]"] empty
  show ?thesis by blast
qed

subsection \<open>A failing write to the file\<close>

text \<open>
  Claim C8. When the window is saving and the file raises on one of the rows of the batch,
  the tick prints the failure, leaves \<open>is_saving\<close> false and \<open>save_file\<close> empty, and
  has put the whole batch into the four ring buffers and curves. In every later run of
  ticks the window stays not saving with no file, prints nothing more, and the ring
  buffers take every batch; after a non-empty batch the curves show the ring buffers, whose
  newest entries are the values of the newest sample.
\<close>
theorem sink_failure_stops_logging:
  "temp_buffer w \<noteq> [] \<and> is_saving w \<and> save_file w = Some f \<and>
   writes_left f = Some n \<and> n < length (temp_buffer w) \<longrightarrow>
     stdout (update_plot w) = stdout w @ [Write_file_failed_msg] \<and>
     \<not> is_saving (update_plot w) \<and> save_file (update_plot w) = None \<and>
     data_ch1 (update_plot w) =
       deque_extend plot_len (data_ch1 w) (map col0 (map fst (temp_buffer w))) \<and>
     data_ch2 (update_plot w) =
       deque_extend plot_len (data_ch2 w) (map col1 (map fst (temp_buffer w))) \<and>
     data_ch3 (update_plot w) =
       deque_extend plot_len (data_ch3 w) (map col2 (map fst (temp_buffer w))) \<and>
     data_ch4 (update_plot w) =
       deque_extend plot_len (data_ch4 w) (map col3 (map fst (temp_buffer w))) \<and>
     curve1 (update_plot w) = data_ch1 (update_plot w) \<and>
     curve2 (update_plot w) = data_ch2 (update_plot w) \<and>
     curve3 (update_plot w) = data_ch3 (update_plot w) \<and>
     curve4 (update_plot w) = data_ch4 (update_plot w) \<and>
     \<not> is_saving (foldl tick_after (update_plot w) batches) \<and>
     save_file (foldl tick_after (update_plot w) batches) = None \<and>
     stdout (foldl tick_after (update_plot w) batches) = stdout (update_plot w) \<and>
     data_ch1 (foldl tick_after (update_plot w) batches) =
       deque_extend plot_len (data_ch1 (update_plot w)) (map col0 (map fst (concat batches))) \<and>
     data_ch2 (foldl tick_after (update_plot w) batches) =
       deque_extend plot_len (data_ch2 (update_plot w)) (map col1 (map fst (concat batches))) \<and>
     data_ch3 (foldl tick_after (update_plot w) batches) =
       deque_extend plot_len (data_ch3 (update_plot w)) (map col2 (map fst (concat batches))) \<and>
     data_ch4 (foldl tick_after (update_plot w) batches) =
       deque_extend plot_len (data_ch4 (update_plot w)) (map col3 (map fst (concat batches))) \<and>
     (batch \<noteq> [] \<longrightarrow>
        curve1 (tick_after (foldl tick_after (update_plot w) batches) batch) =
          data_ch1 (tick_after (foldl tick_after (update_plot w) batches) batch) \<and>
        curve2 (tick_after (foldl tick_after (update_plot w) batches) batch) =
          data_ch2 (tick_after (foldl tick_after (update_plot w) batches) batch) \<and>
        curve3 (tick_after (foldl tick_after (update_plot w) batches) batch) =
          data_ch3 (tick_after (foldl tick_after (update_plot w) batches) batch) \<and>
        curve4 (tick_after (foldl tick_after (update_plot w) batches) batch) =
          data_ch4 (tick_after (foldl tick_after (update_plot w) batches) batch) \<and>
        last (data_ch1 (tick_after (foldl tick_after (update_plot w) batches) batch)) =
          col0 (fst (last batch)) \<and>
        last (data_ch2 (tick_after (foldl tick_after (update_plot w) batches) batch)) =
          col1 (fst (last batch)) \<and>
        last (data_ch3 (tick_after (foldl tick_after (update_plot w) batches) batch)) =
          col2 (fst (last batch)) \<and>
        last (data_ch4 (tick_after (foldl tick_after (update_plot w) batches) batch)) =
          col3 (fst (last batch)))"
proof
  assume h: "temp_buffer w \<noteq> [] \<and> is_saving w \<and> save_file w = Some f \<and>
    writes_left f = Some n \<and> n < length (temp_buffer w)"
  then have ne: "temp_buffer w \<noteq> []" and saving: "is_saving w"
    and opened: "save_file w = Some f" and left: "writes_left f = Some n"
    and few: "n < length (map fst (temp_buffer w))"
    by simp_all
  from write_rows_fails [OF left few] obtain f' where
    "write_rows f (map fst (temp_buffer w)) = Inl f'" by blast
  from update_plot_write_fails [OF ne saving opened this]
  have stopped: "save_file (update_plot w) = None" "\<not> is_saving (update_plot w)"
    "stdout (update_plot w) = stdout w @ [Write_file_failed_msg]"
    by simp_all
  have drained: "temp_buffer (update_plot w) = []"
    by (rule update_plot_temp_buffer)
  note later = ticks_without_file [OF stopped(1) drained, of batches]
  note shown = tick_after_visible [of batch "foldl tick_after (update_plot w) batches"]
  from stopped update_plot_data [of w] update_plot_curves [OF ne] later shown
  show "stdout (update_plot w) = stdout w @ [Write_file_failed_msg] \<and>
     \<not> is_saving (update_plot w) \<and> save_file (update_plot w) = None \<and>
     data_ch1 (update_plot w) =
       deque_extend plot_len (data_ch1 w) (map col0 (map fst (temp_buffer w))) \<and>
     data_ch2 (update_plot w) =
       deque_extend plot_len (data_ch2 w) (map col1 (map fst (temp_buffer w))) \<and>
     data_ch3 (update_plot w) =
       deque_extend plot_len (data_ch3 w) (map col2 (map fst (temp_buffer w))) \<and>
     data_ch4 (update_plot w) =
       deque_extend plot_len (data_ch4 w) (map col3 (map fst (temp_buffer w))) \<and>
     curve1 (update_plot w) = data_ch1 (update_plot w) \<and>
     curve2 (update_plot w) = data_ch2 (update_plot w) \<and>
     curve3 (update_plot w) = data_ch3 (update_plot w) \<and>
     curve4 (update_plot w) = data_ch4 (update_plot w) \<and>
     \<not> is_saving (foldl tick_after (update_plot w) batches) \<and>
     save_file (foldl tick_after (update_plot w) batches) = None \<and>
     stdout (foldl tick_after (update_plot w) batches) = stdout (update_plot w) \<and>
     data_ch1 (foldl tick_after (update_plot w) batches) =
       deque_extend plot_len (data_ch1 (update_plot w)) (map col0 (map fst (concat batches))) \<and>
     data_ch2 (foldl tick_after (update_plot w) batches) =
       deque_extend plot_len (data_ch2 (update_plot w)) (map col1 (map fst (concat batches))) \<and>
     data_ch3 (foldl tick_after (update_plot w) batches) =
       deque_extend plot_len (data_ch3 (update_plot w)) (map col2 (map fst (concat batches))) \<and>
     data_ch4 (foldl tick_after (update_plot w) batches) =
       deque_extend plot_len (data_ch4 (update_plot w)) (map col3 (map fst (concat batches))) \<and>
     (batch \<noteq> [] \<longrightarrow>
        curve1 (tick_after (foldl tick_after (update_plot w) batches) batch) =
          data_ch1 (tick_after (foldl tick_after (update_plot w) batches) batch) \<and>
        curve2 (tick_after (foldl tick_after (update_plot w) batches) batch) =
          data_ch2 (tick_after (foldl tick_after (update_plot w) batches) batch) \<and>
        curve3 (tick_after (foldl tick_after (update_plot w) batches) batch) =
          data_ch3 (tick_after (foldl tick_after (update_plot w) batches) batch) \<and>
        curve4 (tick_after (foldl tick_after (update_plot w) batches) batch) =
          data_ch4 (tick_after (foldl tick_after (update_plot w) batches) batch) \<and>
        last (data_ch1 (tick_after (foldl tick_after (update_plot w) batches) batch)) =
          col0 (fst (last batch)) \<and>
        last (data_ch2 (tick_after (foldl tick_after (update_plot w) batches) batch)) =
          col1 (fst (last batch)) \<and>
        last (data_ch3 (tick_after (foldl tick_after (update_plot w) batches) batch)) =
          col2 (fst (last batch)) \<and>
        last (data_ch4 (tick_after (foldl tick_after (update_plot w) batches) batch)) =
          col3 (fst (last batch)))"
    by simp
qed

lemma failing_window_facts:
  "temp_buffer failing_window = [example_event 1, example_event 2] \<and>
   is_saving failing_window \<and>
   save_file failing_window = Some \<lparr>written = [Header], writes_left = Some 1\<rparr>"
  by (simp add: failing_window_def)

theorem sink_failure_stops_logging_witness:
  "temp_buffer failing_window \<noteq> [] \<and> is_saving failing_window \<and>
   save_file failing_window = Some \<lparr>written = [Header], writes_left = Some 1\<rparr> \<and>
   writes_left \<lparr>written = [Header], writes_left = Some 1\<rparr> = Some 1 \<and>
   1 < length (temp_buffer failing_window) \<and>
   stdout (update_plot failing_window) = stdout failing_window @ [Write_file_failed_msg] \<and>
   \<not> is_saving (update_plot failing_window) \<and>
   save_file (update_plot failing_window) = None \<and>
   save_file (foldl tick_after (update_plot failing_window) [[example_event 3]]) = None \<and>
   [example_event 4] \<noteq> [] \<and>
   last (data_ch1 (tick_after (foldl tick_after (update_plot failing_window) [[example_event 3]])
                     [example_event 4])) =
     col0 (fst (last [example_event 4]))"
proof -
  have h: "temp_buffer failing_window \<noteq> [] \<and> is_saving failing_window \<and>
      save_file failing_window = Some \<lparr>written = [Header], writes_left = Some 1\<rparr> \<and>
      writes_left \<lparr>written = [Header], writes_left = Some 1\<rparr> = Some 1 \<and>
      1 < length (temp_buffer failing_window)"
    using failing_window_facts by simp
  have ne: "[example_event 4] \<noteq> []" by simp
  note inst = sink_failure_stops_logging [of failing_window
      "\<lparr>written = [Header], writes_left = Some 1\<rparr>" 1 "[[example_event 3]]" "[example_event 4]"]
  from inst h ne show ?thesis by blast
qed

subsection \<open>The raw display\<close>

lemma hex_str_Cons:
  "hex_str (b # bs) = fmt_02X b @ (if bs = [] then [] else CHR '' '' # hex_str bs)"
  by (cases bs) (simp_all add: hex_str_def)

lemma fmt_02X_length: "length (fmt_02X b) = 2"
  by (simp add: fmt_02X_def)

lemma hex_str_length: "frame \<noteq> [] \<Longrightarrow> length (hex_str frame) = 3 * length frame - 1"
proof (induction frame)
  case Nil
  then show ?case by simp
next
  case (Cons b bs)
  show ?case
  proof (cases "bs = []")
    case True
    then show ?thesis by (simp add: hex_str_Cons fmt_02X_length)
  next
    case False
    with Cons.IH have "length (hex_str bs) = 3 * length bs - 1" by simp
    moreover from False have "0 < length bs" by simp
    ultimately show ?thesis using False by (simp add: hex_str_Cons fmt_02X_length)
  qed
qed

lemma hex_str_nth:
  "i < length frame \<Longrightarrow>
   hex_str frame ! (3 * i) = hex_char (unat (frame ! i) div 16) \<and>
   hex_str frame ! (3 * i + 1) = hex_char (unat (frame ! i) mod 16) \<and>
   (i + 1 < length frame \<longrightarrow> hex_str frame ! (3 * i + 2) = CHR '' '')"
proof (induction frame arbitrary: i)
  case Nil
  then show ?case by simp
next
  case (Cons b bs)
  show ?case
  proof (cases i)
    case 0
    then show ?thesis by (simp add: hex_str_Cons fmt_02X_def)
  next
    case (Suc j)
    with Cons.prems have j: "j < length bs" by simp
    then have ne: "bs \<noteq> []" by auto
    have shift: "hex_str (b # bs) ! (3 + k) = hex_str bs ! k" for k
      using ne by (simp add: hex_str_Cons fmt_02X_def nth_append)
    have s0: "hex_str (b # bs) ! (3 * Suc j) = hex_str bs ! (3 * j)"
      using shift [of "3 * j"] by simp
    have s1: "hex_str (b # bs) ! (3 * Suc j + 1) = hex_str bs ! (3 * j + 1)"
      using shift [of "3 * j + 1"] by simp
    have s2: "hex_str (b # bs) ! (3 * Suc j + 2) = hex_str bs ! (3 * j + 2)"
      using shift [of "3 * j + 2"] by simp
    from Cons.IH [OF j] show ?thesis
      unfolding Suc s0 s1 s2 by simp
  qed
qed

lemma hex_char_upper: "n < 16 \<Longrightarrow> hex_char n \<in> set ''0123456789ABCDEF''"
  unfolding hex_char_def by (rule nth_mem) simp

lemma last_n_length: "length (last_n n xs) = min n (length xs)"
  by (simp add: last_n_def)

lemma example_hex:
  "hex_str (example_frame t) =
     ''AA 00 00 00 00 00 00 00 00 00 00 00 00 01 00 00 00 00 00 00 00 00 00 00 00 ''
     @ ''00 00 00 00 00 00 00 00 00 00 00 00 00 00 '' @ fmt_02X t"
  by (simp add: example_frame_bytes hex_str_def fmt_02X_def hex_char_def)


lemma two_ticks_display:
  "txt_raw_display
     (tick_after
        (tick_after init_window
           [example_event 1, example_event 2, example_event 3, example_event 4, example_event 5])
        [example_event 6]) =
   hex_str (example_frame 6)"
proof -
  let ?w1 = "tick_after init_window
      [example_event 1, example_event 2, example_event 3, example_event 4, example_event 5]"
  have "temp_buffer ?w1 = []"
    by (simp add: tick_after_unfold update_plot_temp_buffer)
  then have tb: "temp_buffer (?w1\<lparr>temp_buffer := temp_buffer ?w1 @ [example_event 6]\<rparr>) =
      [example_event 6]"
    by simp
  then have ne: "temp_buffer (?w1\<lparr>temp_buffer := temp_buffer ?w1 @ [example_event 6]\<rparr>) \<noteq> []"
    by simp
  show ?thesis
    unfolding tick_after_unfold [of ?w1] update_plot_display [OF ne] tb
    by (simp add: last_n_def example_event_def)
qed

lemma claimed_display_differs:
  "hex_str (example_frame 6) \<noteq>
   join [CHR 0x0A]
     (map hex_str
        (last_n 5 [example_frame 1, example_frame 2, example_frame 3, example_frame 4,
                   example_frame 5, example_frame 6]))"
  by (simp add: last_n_def example_hex fmt_02X_def hex_char_def)

lemma byte_nibbles: "unat (b :: byte) div 16 < 16 \<and> unat b mod 16 < 16"
proof -
  have "unat b < 2 ^ LENGTH(8)" by (rule unsigned_less)
  then show ?thesis by simp
qed

text \<open>
  Claim C9, as the code has it. A tick that drains a non-empty batch sets the raw display
  to the last five frames of that batch, all of them when the batch has fewer than five,
  joined by newlines. A frame is shown as two upper-case hexadecimal digits for each byte,
  high digit first, with one space between neighbouring bytes.
\<close>
theorem raw_display_last_frames_of_batch:
  "(temp_buffer w \<noteq> [] \<longrightarrow>
      txt_raw_display (update_plot w) =
        join [CHR 0x0A] (map hex_str (last_n 5 (map snd (temp_buffer w))))) \<and>
   last_n 5 frames = drop (length frames - 5) frames \<and>
   length (last_n 5 frames) = min 5 (length frames) \<and>
   (frame \<noteq> [] \<longrightarrow> length (hex_str frame) = 3 * length frame - 1) \<and>
   (\<forall>i<length frame.
      hex_str frame ! (3 * i) = hex_char (unat (frame ! i) div 16) \<and>
      hex_str frame ! (3 * i + 1) = hex_char (unat (frame ! i) mod 16) \<and>
      unat (frame ! i) div 16 < 16 \<and> unat (frame ! i) mod 16 < 16 \<and>
      (i + 1 < length frame \<longrightarrow> hex_str frame ! (3 * i + 2) = CHR '' '')) \<and>
   (\<forall>n<16. hex_char n \<in> set ''0123456789ABCDEF'')"
proof -
  have a: "temp_buffer w \<noteq> [] \<longrightarrow>
      txt_raw_display (update_plot w) =
        join [CHR 0x0A] (map hex_str (last_n 5 (map snd (temp_buffer w))))"
    using update_plot_display [of w] by blast
  have b: "last_n 5 frames = drop (length frames - 5) frames"
    by (simp add: last_n_def)
  have c: "frame \<noteq> [] \<longrightarrow> length (hex_str frame) = 3 * length frame - 1"
    using hex_str_length [of frame] by blast
  have d: "\<forall>i<length frame.
      hex_str frame ! (3 * i) = hex_char (unat (frame ! i) div 16) \<and>
      hex_str frame ! (3 * i + 1) = hex_char (unat (frame ! i) mod 16) \<and>
      unat (frame ! i) div 16 < 16 \<and> unat (frame ! i) mod 16 < 16 \<and>
      (i + 1 < length frame \<longrightarrow> hex_str frame ! (3 * i + 2) = CHR '' '')"
    using hex_str_nth [of _ frame] byte_nibbles by blast
  have e: "\<forall>n<16. hex_char n \<in> set ''0123456789ABCDEF''"
    using hex_char_upper by blast
  from a b last_n_length [of 5 frames] c d e show ?thesis by blast
qed

theorem raw_display_last_frames_of_batch_witness:
  "temp_buffer failing_window \<noteq> [] \<and>
   txt_raw_display (update_plot failing_window) =
     join [CHR 0x0A] (map hex_str (last_n 5 (map snd (temp_buffer failing_window)))) \<and>
   example_frame 0 \<noteq> [] \<and>
   length (hex_str (example_frame 0)) = 3 * length (example_frame 0) - 1 \<and>
   39 < length (example_frame 0) \<and>
   hex_str (example_frame 0) ! (3 * 39) = hex_char (unat (example_frame 0 ! 39) div 16) \<and>
   (10 :: nat) < 16 \<and> hex_char 10 \<in> set ''0123456789ABCDEF''"
proof -
  have ne: "temp_buffer failing_window \<noteq> []"
    using failing_window_facts by simp
  have len: "39 < length (example_frame 0)"
    by (simp add: example_frame_length FRAME_LEN_def)
  have ten: "(10 :: nat) < 16" by simp
  note inst = raw_display_last_frames_of_batch [of failing_window "[]" "example_frame 0"]
  from inst have shown: "txt_raw_display (update_plot failing_window) =
     join [CHR 0x0A] (map hex_str (last_n 5 (map snd (temp_buffer failing_window))))"
    using ne by blast
  from inst have long: "length (hex_str (example_frame 0)) = 3 * length (example_frame 0) - 1"
    using example_frame_not_Nil [of 0] by blast
  from inst have digit: "hex_str (example_frame 0) ! (3 * 39) =
      hex_char (unat (example_frame 0 ! 39) div 16)"
    using len by blast
  from inst have upper: "hex_char 10 \<in> set ''0123456789ABCDEF''"
    using ten by blast
  from ne shown example_frame_not_Nil [of 0] long len digit ten upper show ?thesis by blast
qed

text \<open>
  Claim C9 as stated fails when a batch holds fewer than five frames: after a tick with
  five frames and a tick with one more frame, the display holds that one frame alone, not
  the five frames received last.
\<close>
theorem raw_display_is_not_last_five_received:
  "txt_raw_display
     (tick_after
        (tick_after init_window
           [example_event 1, example_event 2, example_event 3, example_event 4, example_event 5])
        [example_event 6]) =
     hex_str (example_frame 6) \<and>
   txt_raw_display
     (tick_after
        (tick_after init_window
           [example_event 1, example_event 2, example_event 3, example_event 4, example_event 5])
        [example_event 6]) \<noteq>
     join [CHR 0x0A]
       (map hex_str
          (last_n 5 [example_frame 1, example_frame 2, example_frame 3, example_frame 4,
                     example_frame 5, example_frame 6]))"
  unfolding two_ticks_display using claimed_display_differs by simp

end
